theory Spec2Isabelle
  imports Complex_Main "HOL-Library.Multiset" "HOL-Library.Monad_Syntax" "HOL-Library.Log_Nat"
begin

chapter \<open>The model\<close>

section \<open>Optimizer parameter groups (\<open>get_param_groups\<close>)\<close>

text \<open>
  A trainable parameter of the network. The function only reads the \<open>name\<close> of a
  parameter; the tensor it carries is the \<open>payload\<close>.
\<close>

record 'v parameter =
  name :: string
  payload :: 'v

text \<open>Python's \<open>str.endswith(suffix)\<close>.\<close>

definition endswith :: "string \<Rightarrow> string \<Rightarrow> bool" where
  "endswith s suffix =
     (length suffix \<le> length s \<and> drop (length s - length suffix) s = suffix)"

text \<open>
  The values stored in the dictionaries that \<open>get_param_groups\<close> returns: a
  list of parameters or the float literal \<open>0.0\<close>. A dictionary is an association
  list in insertion order.
\<close>

datatype 'v pyval = PList "'v parameter list" | PFloat real

type_synonym 'v pydict = "(string \<times> 'v pyval) list"

text \<open>
  The loop \<open>for x in network.trainable_params()\<close>. The state is the pair
  \<open>(decay_params, no_decay_params)\<close>; \<open>append\<close> adds at the end.
\<close>

fun param_loop ::
  "'v parameter list \<Rightarrow> 'v parameter list \<times> 'v parameter list
     \<Rightarrow> 'v parameter list \<times> 'v parameter list" where
  "param_loop [] (decay_params, no_decay_params) = (decay_params, no_decay_params)"
| "param_loop (x # xs) (decay_params, no_decay_params) =
     (let parameter_name = name x in
      if endswith parameter_name ''.bias'' then
        param_loop xs (decay_params, no_decay_params @ [x])
      else if endswith parameter_name ''.gamma'' then
        param_loop xs (decay_params, no_decay_params @ [x])
      else if endswith parameter_name ''.beta'' then
        param_loop xs (decay_params, no_decay_params @ [x])
      else
        param_loop xs (decay_params @ [x], no_decay_params))"

text \<open>
  \<open>get_param_groups(network)\<close>; the network enters through the list
  \<open>network.trainable_params()\<close>.
\<close>

definition get_param_groups :: "'v parameter list \<Rightarrow> 'v pydict list" where
  "get_param_groups trainable_params =
     (case param_loop trainable_params ([], []) of
        (decay_params, no_decay_params) \<Rightarrow>
          [[(''params'', PList no_decay_params), (''weight_decay'', PFloat 0.0)],
           [(''params'', PList decay_params)]])"

text \<open>The names whose parameters go to the first group.\<close>

definition no_decay_name :: "string \<Rightarrow> bool" where
  "no_decay_name s = (endswith s ''.bias'' \<or> endswith s ''.gamma'' \<or> endswith s ''.beta'')"


section \<open>Tensors\<close>

text \<open>
  A tensor of the framework is a nested list in row-major order, one list level per
  axis; \<open>t ! i ! j\<close> is \<open>t[i, j]\<close>. Framework tensors are rectangular and the
  framework has no tensor with an axis of length 0, so the axis lengths are read off the
  first entries. An operation that the framework rejects returns \<open>None\<close>.
\<close>

type_synonym 'a tensor2 = "'a list list"
type_synonym 'a tensor3 = "'a list list list"
type_synonym 'a tensor4 = "'a list list list list"

definition dim0 :: "'a list \<Rightarrow> nat" where
  "dim0 t = length t"

definition dim1 :: "'a list list \<Rightarrow> nat" where
  "dim1 t = (case t of [] \<Rightarrow> 0 | x # _ \<Rightarrow> dim0 x)"

definition dim2 :: "'a list list list \<Rightarrow> nat" where
  "dim2 t = (case t of [] \<Rightarrow> 0 | x # _ \<Rightarrow> dim1 x)"

definition dim3 :: "'a list list list list \<Rightarrow> nat" where
  "dim3 t = (case t of [] \<Rightarrow> 0 | x # _ \<Rightarrow> dim2 x)"

text \<open>\<open>is_shape2 n m t\<close>: \<open>t\<close> is a rectangular tensor with \<open>t.shape == (n, m)\<close>.\<close>

definition is_shape2 :: "nat \<Rightarrow> nat \<Rightarrow> 'a tensor2 \<Rightarrow> bool" where
  "is_shape2 n m t = (length t = n \<and> list_all (\<lambda>r. length r = m) t)"

definition is_shape3 :: "nat \<Rightarrow> nat \<Rightarrow> nat \<Rightarrow> 'a tensor3 \<Rightarrow> bool" where
  "is_shape3 n m k t = (length t = n \<and> list_all (is_shape2 m k) t)"

definition is_shape4 :: "nat \<Rightarrow> nat \<Rightarrow> nat \<Rightarrow> nat \<Rightarrow> 'a tensor4 \<Rightarrow> bool" where
  "is_shape4 n m k l t = (length t = n \<and> list_all (is_shape3 m k l) t)"

text \<open>\<open>tab n f\<close> is the list \<open>[f 0, ..., f (n - 1)]\<close>.\<close>

definition tab :: "nat \<Rightarrow> (nat \<Rightarrow> 'a) \<Rightarrow> 'a list" where
  "tab n f = map f [0..<n]"

text \<open>The elements of a tensor in row-major order.\<close>

definition flatten3 :: "'a tensor3 \<Rightarrow> 'a list" where
  "flatten3 t = concat (concat t)"

definition flatten4 :: "'a tensor4 \<Rightarrow> 'a list" where
  "flatten4 t = concat (concat (concat t))"

text \<open>\<open>split_rows n xs\<close> cuts \<open>xs\<close> into \<open>n\<close> consecutive pieces of equal length.\<close>

definition split_rows :: "nat \<Rightarrow> 'a list \<Rightarrow> 'a list list" where
  "split_rows n xs =
     (let l = length xs div n in map (\<lambda>i. take l (drop (i * l) xs)) [0..<n])"

text \<open>
  \<open>Tensor.reshape((b, d, -1))\<close> and \<open>Tensor.reshape((b, d, n, -1))\<close> on the
  row-major elements: the last axis is inferred, and the call is rejected when the number
  of elements is not a multiple of the given axes.
\<close>

definition reshape3_infer :: "nat \<Rightarrow> nat \<Rightarrow> 'a list \<Rightarrow> 'a tensor3 option" where
  "reshape3_infer b d xs =
     (if b * d = 0 \<or> length xs mod (b * d) \<noteq> 0 then None
      else Some (map (split_rows d) (split_rows b xs)))"

definition reshape4_infer :: "nat \<Rightarrow> nat \<Rightarrow> nat \<Rightarrow> 'a list \<Rightarrow> 'a tensor4 option" where
  "reshape4_infer b d n xs =
     (if b * d * n = 0 \<or> length xs mod (b * d * n) \<noteq> 0 then None
      else Some (map (map (split_rows n)) (map (split_rows d) (split_rows b xs))))"

text \<open>\<open>Tensor.expand_dims(axis)\<close> for the ranks and axes the network uses.\<close>

definition expand_dims3_1 :: "'a tensor3 \<Rightarrow> 'a tensor4" where
  "expand_dims3_1 t = map (\<lambda>x. [x]) t"

definition expand_dims3_2 :: "'a tensor3 \<Rightarrow> 'a tensor4" where
  "expand_dims3_2 t = map (map (\<lambda>x. [x])) t"

definition expand_dims3_last :: "'a tensor3 \<Rightarrow> 'a tensor4" where
  "expand_dims3_last t = map (map (map (\<lambda>x. [x]))) t"

text \<open>\<open>P.Tile()(t, (m0, m1, m2, m3))\<close>: axis \<open>i\<close> is repeated \<open>mi\<close> times.\<close>

definition rep :: "nat \<Rightarrow> 'a list \<Rightarrow> 'a list" where
  "rep m xs = concat (replicate m xs)"

definition Tile4 :: "nat \<times> nat \<times> nat \<times> nat \<Rightarrow> 'a tensor4 \<Rightarrow> 'a tensor4" where
  "Tile4 multiples t =
     (case multiples of (m0, m1, m2, m3) \<Rightarrow>
        rep m0 (map (\<lambda>a. rep m1 (map (\<lambda>b. rep m2 (map (\<lambda>c. rep m3 c) b)) a)) t))"

text \<open>
  \<open>Tensor.squeeze(-1)\<close> on a rank-4 tensor and \<open>P.Squeeze(2)\<close> on a rank-4
  tensor: the axis is removed; the call is rejected unless the axis has length 1.
\<close>

definition squeeze4_last :: "'a tensor4 \<Rightarrow> 'a tensor3 option" where
  "squeeze4_last t =
     (if list_all (list_all (list_all (\<lambda>r. length r = 1))) t
      then Some (map (map (map hd)) t) else None)"

definition Squeeze4_2 :: "'a tensor4 \<Rightarrow> 'a tensor3 option" where
  "Squeeze4_2 t =
     (if list_all (list_all (\<lambda>r. length r = 1)) t
      then Some (map (map hd) t) else None)"

text \<open>
  \<open>Tensor.transpose\<close> with the permutations the network uses. For a permutation
  \<open>p\<close> the result has \<open>out.shape[i] = t.shape[p[i]]\<close>.
\<close>

definition transpose3_021 :: "'a tensor3 \<Rightarrow> 'a tensor3" where
  "transpose3_021 t =
     tab (dim0 t) (\<lambda>i0. tab (dim2 t) (\<lambda>i2. tab (dim1 t) (\<lambda>i1. t ! i0 ! i1 ! i2)))"

definition transpose4_0231 :: "'a tensor4 \<Rightarrow> 'a tensor4" where
  "transpose4_0231 t =
     tab (dim0 t) (\<lambda>i0. tab (dim2 t) (\<lambda>i2. tab (dim3 t) (\<lambda>i3. tab (dim1 t) (\<lambda>i1.
       t ! i0 ! i1 ! i2 ! i3))))"

definition transpose4_0312 :: "'a tensor4 \<Rightarrow> 'a tensor4" where
  "transpose4_0312 t =
     tab (dim0 t) (\<lambda>i0. tab (dim3 t) (\<lambda>i3. tab (dim1 t) (\<lambda>i1. tab (dim2 t) (\<lambda>i2.
       t ! i0 ! i1 ! i2 ! i3))))"

text \<open>
  An index into an axis of length \<open>n\<close>, as \<open>P.GatherD\<close> reads it: the framework
  accepts the range \<open>[-n, n)\<close> and counts a negative index from the end.
\<close>

definition index_ok :: "nat \<Rightarrow> int \<Rightarrow> bool" where
  "index_ok n i = (- int n \<le> i \<and> i < int n)"

definition wrap_index :: "nat \<Rightarrow> int \<Rightarrow> nat" where
  "wrap_index n i = (if i < 0 then nat (i + int n) else nat i)"

text \<open>
  \<open>P.GatherD()(x, -1, index)\<close> on rank-3 tensors:
  \<open>out[b, c, j] = x[b, c, index[b, c, j]]\<close>; and \<open>P.GatherD()(x, 2, index)\<close> on
  rank-4 tensors: \<open>out[b, c, n, k] = x[b, c, index[b, c, n, k], k]\<close>. The axes other
  than the gathered one must agree and every index must be in range.
\<close>

definition GatherD3_last :: "'a tensor3 \<Rightarrow> int tensor3 \<Rightarrow> 'a tensor3 option" where
  "GatherD3_last x index =
     (if dim0 x = dim0 index \<and> dim1 x = dim1 index
         \<and> list_all (list_all (list_all (index_ok (dim2 x)))) index
      then Some (tab (dim0 index) (\<lambda>b. tab (dim1 index) (\<lambda>c.
             map (\<lambda>i. x ! b ! c ! wrap_index (dim2 x) i) (index ! b ! c))))
      else None)"

definition GatherD4_2 :: "'a tensor4 \<Rightarrow> int tensor4 \<Rightarrow> 'a tensor4 option" where
  "GatherD4_2 x index =
     (if dim0 x = dim0 index \<and> dim1 x = dim1 index \<and> dim3 x = dim3 index
         \<and> list_all (list_all (list_all (list_all (index_ok (dim2 x))))) index
      then Some (tab (dim0 index) (\<lambda>b. tab (dim1 index) (\<lambda>c. tab (dim2 index) (\<lambda>n.
             tab (dim3 index) (\<lambda>k. x ! b ! c ! wrap_index (dim2 x) (index ! b ! c ! n ! k) ! k)))))
      else None)"

text \<open>
  \<open>P.ReduceMax\<close> over one axis. \<open>max_list\<close> is the maximum of a non-empty list;
  a reduction over an axis of length 0 is rejected.
\<close>

definition max_list :: "'a::linorder list \<Rightarrow> 'a" where
  "max_list xs = fold max (tl xs) (hd xs)"

definition ReduceMax4_last_keep :: "'a::linorder tensor4 \<Rightarrow> 'a tensor4 option" where
  "ReduceMax4_last_keep t =
     (if list_all (list_all (list_all (\<lambda>r. r \<noteq> []))) t
      then Some (map (map (map (\<lambda>r. [max_list r]))) t) else None)"

definition ReduceMax4_2 :: "'a::linorder tensor4 \<Rightarrow> 'a tensor3 option" where
  "ReduceMax4_2 t =
     (if list_all (list_all (\<lambda>m. m \<noteq> [])) t
      then Some (map (map (\<lambda>m. tab (dim1 m) (\<lambda>c. max_list (map (\<lambda>r. r ! c) m)))) t)
      else None)"

section \<open>\<open>RandLANet.random_sample\<close> and \<open>RandLANet.gather_neighbour\<close>\<close>

text \<open>
  \<open>random_sample(feature, pool_idx)\<close> with \<open>feature\<close> of shape \<open>(B, d, N, 1)\<close>
  and \<open>pool_idx\<close> of shape \<open>(B, N', max_num)\<close>, line by line.
\<close>

definition random_sample :: "'a::linorder tensor4 \<Rightarrow> int tensor3 \<Rightarrow> 'a tensor4 option" where
  "random_sample feature pool_idx =
     (let b = dim0 feature; d = dim1 feature;
          n' = dim1 pool_idx;
          pool_idx1 = Tile4 (1, dim1 feature, 1, 1) (expand_dims3_1 pool_idx)
      in do {
        pool_idx2 \<leftarrow> reshape3_infer b d (flatten4 pool_idx1);
        squeezed \<leftarrow> squeeze4_last feature;
        pool_features \<leftarrow> GatherD3_last squeezed pool_idx2;
        pool_features1 \<leftarrow> reshape4_infer b d n' (flatten3 pool_features);
        ReduceMax4_last_keep pool_features1
      })"

text \<open>
  The labels are an \<open>int32\<close> tensor and the features are \<open>float32\<close> tensors.
  An \<open>int32\<close> value is an \<open>int\<close>; a \<open>float32\<close> value is the real number
  it denotes (NaN and the infinities are not represented). The list
  \<open>multihot_labels\<close> holds tensors of both types, so its entries carry their type.
\<close>

datatype label_tensor = Int32 "int tensor3" | Float32 "real tensor3"

text \<open>
  \<open>nn.OneHot(depth)\<close> on a rank-2 label tensor: a new last axis of length
  \<open>depth\<close> with 1.0 at the label and 0.0 elsewhere. \<open>P.cast(t, ms.int32)\<close>
  truncates towards zero.
\<close>

definition OneHot :: "nat \<Rightarrow> int tensor2 \<Rightarrow> real tensor3" where
  "OneHot depth labels =
     map (map (\<lambda>l. map (\<lambda>c. if l = int c then 1 else 0) [0..<depth])) labels"

definition cast_int32 :: "real tensor3 \<Rightarrow> int tensor3" where
  "cast_int32 t = map (map (map (\<lambda>x. if 0 \<le> x then \<lfloor>x\<rfloor> else \<lceil>x\<rceil>))) t"

text \<open>
  \<open>gather_neighbour(pc, neighbor_idx)\<close> with \<open>pc\<close> of shape \<open>(B, N, 13)\<close> and
  \<open>neighbor_idx\<close> of shape \<open>(B, N, K)\<close>; the result has shape
  \<open>(B, N, K, 13)\<close>. The lines before \<open>astype\<close> do not depend on the element
  type; \<open>astype(ms.float32)\<close> converts an \<open>int32\<close> tensor and leaves a
  \<open>float32\<close> tensor as it is.
\<close>

definition gather_neighbour_any :: "'a tensor3 \<Rightarrow> int tensor3 \<Rightarrow> 'a tensor4 option" where
  "gather_neighbour_any pc neighbor_idx =
     (let idx = neighbor_idx;
          extended_idx = Tile4 (1, 13, 1, 1) (expand_dims3_1 idx);
          xyz_tile = Tile4 (1, 1, 1, dim2 idx) (expand_dims3_last (transpose3_021 pc))
      in do {
        features \<leftarrow> GatherD4_2 xyz_tile extended_idx;
        Some (transpose4_0231 features)
      })"

definition gather_neighbour :: "label_tensor \<Rightarrow> int tensor3 \<Rightarrow> real tensor4 option" where
  "gather_neighbour pc neighbor_idx =
     (case pc of
        Int32 t \<Rightarrow>
          map_option (map (map (map (map real_of_int)))) (gather_neighbour_any t neighbor_idx)
      | Float32 t \<Rightarrow> gather_neighbour_any t neighbor_idx)"

section \<open>\<open>RandLANet.construct\<close>\<close>

text \<open>
  Python's \<open>xs[i]\<close> on a list: a negative index counts from the end, an index out of
  range raises.
\<close>

definition py_get :: "'a list \<Rightarrow> int \<Rightarrow> 'a option" where
  "py_get xs i =
     (if 0 \<le> i \<and> i < int (length xs) then Some (xs ! nat i)
      else if i < 0 \<and> - int (length xs) \<le> i then Some (xs ! nat (int (length xs) + i))
      else None)"

text \<open>\<open>for i in range(...)\<close> with a body that may raise.\<close>

fun for_loop :: "(nat \<Rightarrow> 's \<Rightarrow> 's option) \<Rightarrow> nat list \<Rightarrow> 's \<Rightarrow> 's option" where
  "for_loop body [] s = Some s"
| "for_loop body (i # is) s = (case body i s of None \<Rightarrow> None | Some s' \<Rightarrow> for_loop body is s')"

text \<open>
  \<open>P.Concat(1)((a, b))\<close> on rank-4 tensors: the channel axes are joined; the other
  axes must agree.
\<close>

definition Concat4_1 :: "'a tensor4 \<Rightarrow> 'a tensor4 \<Rightarrow> 'a tensor4 option" where
  "Concat4_1 a b =
     (if dim0 a = dim0 b \<and> dim2 a = dim2 b \<and> dim3 a = dim3 b
      then Some (map2 (@) a b) else None)"

text \<open>
  The cells that \<open>RandLANet.__init__\<close> builds from framework layers (dense,
  convolution, batch normalisation, activation, dropout) with learned weights. Each is a
  parameter of the model: a function on tensors that may raise. The parameter stands
  for what the cell computes in the call considered; the random mask of dropout and the
  update of the moving statistics of batch normalisation are not represented.
  \<open>encoder i\<close> is
  \<open>self.encoder[i]\<close>, a \<open>LocalFeatureAggregation\<close>, called with
  \<open>(coords, features, neighbor_idx)\<close>.
\<close>

record layers =
  fc_start :: "real tensor3 \<Rightarrow> real tensor3 option"
  bn_start :: "real tensor4 \<Rightarrow> real tensor4 option"
  encoder :: "nat \<Rightarrow> real tensor3 \<Rightarrow> real tensor4 \<Rightarrow> int tensor3 \<Rightarrow> real tensor4 option"
  mlp :: "real tensor4 \<Rightarrow> real tensor4 option"
  supervise :: "nat \<Rightarrow> real tensor4 \<Rightarrow> real tensor4 option"
  Se :: "nat \<Rightarrow> real tensor4 \<Rightarrow> real tensor4 option"
  decoder :: "nat \<Rightarrow> real tensor4 \<Rightarrow> real tensor4 option"
  fc_end :: "real tensor4 \<Rightarrow> real tensor4 option"

text \<open>
  The label part of one encoder iteration (the lines from the first \<open>P.ReduceMax\<close>
  to \<open>P.Squeeze(2)\<close>): the multi-hot labels of the next, coarser level.
\<close>

definition label_sample :: "label_tensor \<Rightarrow> int tensor3 \<Rightarrow> int tensor3 \<Rightarrow> real tensor3 option" where
  "label_sample multihot_label neighbor_idx_i sub_idx_i =
     do {
       gathered \<leftarrow> gather_neighbour multihot_label neighbor_idx_i;
       tmp_multihot_label \<leftarrow> ReduceMax4_2 gathered;
       gathered2 \<leftarrow> gather_neighbour (Float32 tmp_multihot_label) neighbor_idx_i;
       tmp_multihot_label \<leftarrow> ReduceMax4_2 gathered2;
       let tmp_multihot_label = expand_dims3_2 tmp_multihot_label;
       let tmp_multihot_label = transpose4_0312 tmp_multihot_label;
       sampled \<leftarrow> random_sample tmp_multihot_label sub_idx_i;
       Squeeze4_2 (transpose4_0231 sampled)
     }"

text \<open>The variables that the encoder loop updates.\<close>

record encoder_state =
  enc_feature :: "real tensor4"
  enc_multihot_labels :: "label_tensor list"
  enc_f_stack :: "real tensor4 list"

definition encoder_step ::
  "layers \<Rightarrow> real tensor3 list \<Rightarrow> int tensor3 list \<Rightarrow> int tensor3 list
     \<Rightarrow> nat \<Rightarrow> encoder_state \<Rightarrow> encoder_state option" where
  "encoder_step net xyz neighbor_idx sub_idx i st =
     do {
       xyz_i \<leftarrow> py_get xyz (int i);
       neighbor_idx_i \<leftarrow> py_get neighbor_idx (int i);
       f_encoder_i \<leftarrow> encoder net i xyz_i (enc_feature st) neighbor_idx_i;
       sub_idx_i \<leftarrow> py_get sub_idx (int i);
       f_sampled_i \<leftarrow> random_sample f_encoder_i sub_idx_i;
       multihot_label_i \<leftarrow> py_get (enc_multihot_labels st) (int i);
       tmp_multihot_label \<leftarrow> label_sample multihot_label_i neighbor_idx_i sub_idx_i;
       let f_stack = (if i = 0 then enc_f_stack st @ [f_encoder_i] else enc_f_stack st);
       Some \<lparr> enc_feature = f_sampled_i,
              enc_multihot_labels = enc_multihot_labels st @ [Float32 tmp_multihot_label],
              enc_f_stack = f_stack @ [f_sampled_i] \<rparr>
     }"

text \<open>The variables that the decoder loop updates.\<close>

record decoder_state =
  dec_feature :: "real tensor4"
  dec_supervised_features :: "real tensor3 list"
  dec_f_decoder_list :: "real tensor4 list"
  dec_se_features_list :: "real tensor4 list"

definition decoder_step ::
  "layers \<Rightarrow> int tensor3 list \<Rightarrow> real tensor4 list
     \<Rightarrow> nat \<Rightarrow> decoder_state \<Rightarrow> decoder_state option" where
  "decoder_step net interp_idx f_stack j st =
     do {
       interp_idx_j \<leftarrow> py_get interp_idx (- int j - 1);
       f_interp_i \<leftarrow> random_sample (dec_feature st) interp_idx_j;
       skip \<leftarrow> py_get f_stack (- int j - 2);
       joined \<leftarrow> Concat4_1 skip f_interp_i;
       f_decoder_i \<leftarrow> decoder net j joined;
       se_features_list \<leftarrow>
         (if j < 4 then do {
            se_features \<leftarrow> Se net j f_decoder_i;
            Some (dec_se_features_list st @ [se_features])
          } else Some (dec_se_features_list st));
       tmp_features \<leftarrow> supervise net (j + 1) f_decoder_i;
       supervised \<leftarrow> Squeeze4_2 (transpose4_0231 tmp_features);
       Some \<lparr> dec_feature = f_decoder_i,
              dec_supervised_features = dec_supervised_features st @ [supervised],
              dec_f_decoder_list = dec_f_decoder_list st @ [f_decoder_i],
              dec_se_features_list = se_features_list \<rparr>
     }"

text \<open>
  \<open>RandLANet.construct(xyz, feature, neighbor_idx, sub_idx, interp_idx, labels)\<close>.
  The result is the tuple
  \<open>(scores.squeeze(-1), multihot_labels, supervised_features, se_features_list)\<close>.
\<close>

definition construct ::
  "layers \<Rightarrow> real tensor3 list \<Rightarrow> real tensor3 \<Rightarrow> int tensor3 list \<Rightarrow> int tensor3 list
     \<Rightarrow> int tensor3 list \<Rightarrow> int tensor2
     \<Rightarrow> (real tensor3 \<times> label_tensor list \<times> real tensor3 list \<times> real tensor4 list) option" where
  "construct net xyz feature neighbor_idx sub_idx interp_idx labels =
     do {
       feature \<leftarrow> fc_start net feature;
       let feature = expand_dims3_last (transpose3_021 feature);
       feature \<leftarrow> bn_start net feature;
       let multihot_labels = [Int32 (cast_int32 (OneHot 13 labels))];
       enc \<leftarrow> for_loop (encoder_step net xyz neighbor_idx sub_idx) [0..<5]
                \<lparr> enc_feature = feature, enc_multihot_labels = multihot_labels,
                  enc_f_stack = [] \<rparr>;
       top \<leftarrow> py_get (enc_f_stack enc) (- 1);
       feature \<leftarrow> mlp net top;
       tmp_features \<leftarrow> supervise net 0 feature;
       supervised \<leftarrow> Squeeze4_2 (transpose4_0231 tmp_features);
       dec \<leftarrow> for_loop (decoder_step net interp_idx (enc_f_stack enc)) [0..<5]
                \<lparr> dec_feature = feature, dec_supervised_features = [supervised],
                  dec_f_decoder_list = [], dec_se_features_list = [] \<rparr>;
       last_decoder \<leftarrow> py_get (dec_f_decoder_list dec) (- 1);
       scores \<leftarrow> fc_end net last_decoder;
       scores \<leftarrow> squeeze4_last scores;
       Some (scores, enc_multihot_labels enc, dec_supervised_features dec,
             dec_se_features_list dec)
     }"

section \<open>The losses\<close>

text \<open>
  Arithmetic on \<open>float32\<close> values is modelled by the arithmetic of the real numbers:
  rounding, overflow and NaN are not represented. The two cross-entropy primitives of the
  framework are parameters of the model: \<open>sce x z\<close> stands for the value of
  \<open>P.SigmoidCrossEntropyWithLogits\<close> at a logit \<open>x\<close> and a label \<open>z\<close> (the
  primitive works element by element), and \<open>smce row target\<close> for the value of
  \<open>nn.SoftmaxCrossEntropyWithLogits(sparse=False)\<close> at one row of logits and one row
  of labels (the primitive works row by row and, with its default reduction, returns one
  loss per row).
\<close>

definition same_shape3 :: "'a tensor3 \<Rightarrow> 'b tensor3 \<Rightarrow> bool" where
  "same_shape3 a b =
     list_all2 (list_all2 (\<lambda>u v. length u = length v)) a b"

definition same_shape4 :: "'a tensor4 \<Rightarrow> 'b tensor4 \<Rightarrow> bool" where
  "same_shape4 a b =
     list_all2 (list_all2 (list_all2 (\<lambda>u v. length u = length v))) a b"

text \<open>
  \<open>P.SigmoidCrossEntropyWithLogits()(logits, label)\<close> on tensors of rank 3 and of
  rank 4: both arguments are \<open>float32\<close> tensors of the same shape.
\<close>

definition loss_fn3 :: "(real \<Rightarrow> real \<Rightarrow> real) \<Rightarrow> real tensor3 \<Rightarrow> label_tensor \<Rightarrow> real tensor3 option" where
  "loss_fn3 sce logits label =
     (case label of
        Int32 t \<Rightarrow> None
      | Float32 t \<Rightarrow>
          if same_shape3 logits t then Some (map2 (map2 (map2 sce)) logits t) else None)"

definition loss_fn4 :: "(real \<Rightarrow> real \<Rightarrow> real) \<Rightarrow> real tensor4 \<Rightarrow> real tensor4 \<Rightarrow> real tensor4 option" where
  "loss_fn4 sce logits label =
     (if same_shape4 logits label then Some (map2 (map2 (map2 (map2 sce))) logits label)
      else None)"

text \<open>\<open>P.ReduceMean()(t)\<close> and \<open>Tensor.mean()\<close>: the mean of all elements.\<close>

definition mean_list :: "real list \<Rightarrow> real" where
  "mean_list xs = sum_list xs / real (length xs)"

definition ReduceMean3 :: "real tensor3 \<Rightarrow> real" where
  "ReduceMean3 t = mean_list (flatten3 t)"

definition ReduceMean4 :: "real tensor4 \<Rightarrow> real" where
  "ReduceMean4 t = mean_list (flatten4 t)"

text \<open>\<open>Hloss.construct(multihot_labels, supervised_features)\<close>.\<close>

definition Hloss ::
  "(real \<Rightarrow> real \<Rightarrow> real) \<Rightarrow> label_tensor list \<Rightarrow> real tensor3 list \<Rightarrow> real option" where
  "Hloss sce multihot_labels supervised_features =
     do {
       s0 \<leftarrow> py_get supervised_features 0;
       m5 \<leftarrow> py_get multihot_labels 5;
       l0 \<leftarrow> loss_fn3 sce s0 m5;
       let h_loss = ReduceMean3 l0;
       s1 \<leftarrow> py_get supervised_features 1;
       m4 \<leftarrow> py_get multihot_labels 4;
       l1 \<leftarrow> loss_fn3 sce s1 m4;
       let h_loss = h_loss + ReduceMean3 l1;
       s2 \<leftarrow> py_get supervised_features 2;
       m3 \<leftarrow> py_get multihot_labels 3;
       l2 \<leftarrow> loss_fn3 sce s2 m3;
       let h_loss = h_loss + ReduceMean3 l2;
       s3 \<leftarrow> py_get supervised_features 3;
       m2 \<leftarrow> py_get multihot_labels 2;
       l3 \<leftarrow> loss_fn3 sce s3 m2;
       let h_loss = h_loss + ReduceMean3 l3;
       let h_loss = h_loss / 4;
       Some h_loss
     }"

text \<open>
  \<open>SEloss.construct(se_features_list)\<close>. \<open>P.GreaterEqual()(se_features, 0.)\<close>
  is a tensor of booleans; the casts to \<open>int32\<close> and then \<open>float32\<close> turn it into
  1.0 and 0.0. The loop variable \<open>self_enhance_loss\<close> starts as Python's \<open>None\<close>.
\<close>

definition target_se :: "real tensor4 \<Rightarrow> real tensor4" where
  "target_se se_features =
     map (map (map (map (\<lambda>x. real_of_int (if x \<ge> 0 then 1 else 0))))) se_features"

definition SEloss_step ::
  "(real \<Rightarrow> real \<Rightarrow> real) \<Rightarrow> real tensor4 list \<Rightarrow> nat \<Rightarrow> real option \<Rightarrow> real option option" where
  "SEloss_step sce se_features_list i self_enhance_loss =
     do {
       se_features \<leftarrow> py_get se_features_list (int i);
       let target_se_features = target_se se_features;
       l \<leftarrow> loss_fn4 sce se_features target_se_features;
       (case self_enhance_loss of
          None \<Rightarrow> Some (Some (ReduceMean4 l))
        | Some v \<Rightarrow> Some (Some (v + ReduceMean4 l)))
     }"

definition SEloss :: "(real \<Rightarrow> real \<Rightarrow> real) \<Rightarrow> real tensor4 list \<Rightarrow> real option" where
  "SEloss sce se_features_list =
     do {
       self_enhance_loss \<leftarrow> for_loop (SEloss_step sce se_features_list) [0..<4] None;
       (case self_enhance_loss of
          None \<Rightarrow> None
        | Some v \<Rightarrow> Some (v / 4))
     }"

text \<open>
  \<open>WeightCEloss.construct(logits, labels)\<close> with \<open>self.weights\<close> a tensor of
  shape \<open>(num_classes,)\<close>. \<open>Tensor.reshape((-1, c))\<close> cuts the row-major elements
  into rows of length \<open>c\<close>; \<open>nn.OneHot\<close> on a rank-1 tensor gives one row per
  label; \<open>self.weights * one_hot_labels\<close> broadcasts the weights over the rows.
\<close>

definition reshape2_infer_rows :: "nat \<Rightarrow> 'a list \<Rightarrow> 'a tensor2 option" where
  "reshape2_infer_rows c xs =
     (if c = 0 \<or> length xs mod c \<noteq> 0 then None
      else Some (split_rows (length xs div c) xs))"

definition onehot_row :: "nat \<Rightarrow> int \<Rightarrow> real list" where
  "onehot_row depth l = map (\<lambda>c. if l = int c then 1 else 0) [0..<depth]"

definition OneHot1 :: "nat \<Rightarrow> int list \<Rightarrow> real tensor2" where
  "OneHot1 depth labels = map (onehot_row depth) labels"

definition broadcast_mul_rows :: "real list \<Rightarrow> real tensor2 \<Rightarrow> real tensor2 option" where
  "broadcast_mul_rows w t =
     (if list_all (\<lambda>row. length row = length w \<or> length w = 1 \<or> length row = 1) t
      then Some (map (\<lambda>row.
             if length row = length w then map2 (*) w row
             else if length w = 1 then map (\<lambda>x. hd w * x) row
             else map (\<lambda>x. x * hd row) w) t)
      else None)"

definition smce_rows ::
  "(real list \<Rightarrow> real list \<Rightarrow> real) \<Rightarrow> real tensor2 \<Rightarrow> real tensor2 \<Rightarrow> real list option" where
  "smce_rows smce logit labels =
     (if list_all2 (\<lambda>u v. length u = length v) logit labels
      then Some (map2 smce logit labels) else None)"

definition WeightCEloss ::
  "(real list \<Rightarrow> real list \<Rightarrow> real) \<Rightarrow> real list \<Rightarrow> nat \<Rightarrow> real tensor3 \<Rightarrow> int tensor2
     \<Rightarrow> real option" where
  "WeightCEloss smce weights num_classes logits labels =
     do {
       logit \<leftarrow> reshape2_infer_rows num_classes (flatten3 (transpose3_021 logits));
       let labels = concat labels;
       let one_hot_labels = OneHot1 num_classes labels;
       weights \<leftarrow> broadcast_mul_rows weights one_hot_labels;
       let weights = map sum_list weights;
       unweighted_loss \<leftarrow> smce_rows smce logit one_hot_labels;
       weighted_loss \<leftarrow>
         (if length unweighted_loss = length weights
          then Some (map2 (*) unweighted_loss weights) else None);
       let CE_loss = mean_list weighted_loss;
       Some CE_loss
     }"

section \<open>\<open>RandLAWithLoss.construct\<close>\<close>

text \<open>
  \<open>self.network\<close> is the cell given to \<open>RandLAWithLoss.__init__\<close>; it is a
  parameter with the signature of \<open>RandLANet.construct\<close>. The arguments
  \<open>input_inds\<close> and \<open>cloud_inds\<close> are not used. The call of \<open>print\<close> does not
  change the value returned and is left out.
\<close>

type_synonym network =
  "real tensor3 list \<Rightarrow> real tensor3 \<Rightarrow> int tensor3 list \<Rightarrow> int tensor3 list
     \<Rightarrow> int tensor3 list \<Rightarrow> int tensor2
     \<Rightarrow> (real tensor3 \<times> label_tensor list \<times> real tensor3 list \<times> real tensor4 list) option"

definition RandLAWithLoss_construct ::
  "network \<Rightarrow> real list \<Rightarrow> nat \<Rightarrow> (real \<Rightarrow> real \<Rightarrow> real) \<Rightarrow> (real list \<Rightarrow> real list \<Rightarrow> real)
     \<Rightarrow> real tensor3 \<Rightarrow> int tensor2 \<Rightarrow> 'i \<Rightarrow> 'c
     \<Rightarrow> real tensor3 \<Rightarrow> real tensor3 \<Rightarrow> real tensor3 \<Rightarrow> real tensor3 \<Rightarrow> real tensor3
     \<Rightarrow> int tensor3 \<Rightarrow> int tensor3 \<Rightarrow> int tensor3 \<Rightarrow> int tensor3 \<Rightarrow> int tensor3
     \<Rightarrow> int tensor3 \<Rightarrow> int tensor3 \<Rightarrow> int tensor3 \<Rightarrow> int tensor3 \<Rightarrow> int tensor3
     \<Rightarrow> int tensor3 \<Rightarrow> int tensor3 \<Rightarrow> int tensor3 \<Rightarrow> int tensor3 \<Rightarrow> int tensor3
     \<Rightarrow> real option" where
  "RandLAWithLoss_construct network weights num_classes sce smce
       feature labels input_inds cloud_inds p0 p1 p2 p3 p4 n0 n1 n2 n3 n4
       pl0 pl1 pl2 pl3 pl4 u0 u1 u2 u3 u4 =
     (let xyz = [p0, p1, p2, p3, p4];
          neighbor_idx = [n0, n1, n2, n3, n4];
          sub_idx = [pl0, pl1, pl2, pl3, pl4];
          interp_idx = [u0, u1, u2, u3, u4]
      in do {
        (logits, multihot_labels, supervised_features, se_features_list) \<leftarrow>
          network xyz feature neighbor_idx sub_idx interp_idx labels;
        CE_loss \<leftarrow> WeightCEloss smce weights num_classes logits labels;
        h_loss \<leftarrow> Hloss sce multihot_labels supervised_features;
        se_loss \<leftarrow> SEloss sce se_features_list;
        let loss = CE_loss + h_loss + se_loss;
        Some loss
      })"

section \<open>\<open>SharedMLP\<close> and \<open>AttentivePooling\<close>\<close>

text \<open>
  \<open>SharedMLP\<close>: the convolution and the batch normalisation are framework layers
  with learned weights and are parameters of the model, as is the activation function,
  which may be absent.
\<close>

record shared_mlp =
  conv :: "real tensor4 \<Rightarrow> real tensor4 option"
  has_bn :: bool
  batch_norm :: "real tensor4 \<Rightarrow> real tensor4 option"
  activation_fn :: "(real tensor4 \<Rightarrow> real tensor4 option) option"

definition SharedMLP_construct :: "shared_mlp \<Rightarrow> real tensor4 \<Rightarrow> real tensor4 option" where
  "SharedMLP_construct m x =
     do {
       x \<leftarrow> conv m x;
       x \<leftarrow> (if has_bn m then batch_norm m x else Some x);
       x \<leftarrow> (case activation_fn m of None \<Rightarrow> Some x | Some f \<Rightarrow> f x);
       Some x
     }"

text \<open>
  \<open>nn.Dense(in_channels, out_channels, has_bias=False)\<close> on a rank-4 tensor: every
  vector along the last axis is multiplied with the weight matrix, whose rows belong to
  the output channels. \<open>nn.Softmax(-2)\<close> on a rank-4 tensor normalises the
  exponentials along axis 2. Both are written with real arithmetic.
\<close>

definition Dense4 :: "real tensor2 \<Rightarrow> real tensor4 \<Rightarrow> real tensor4 option" where
  "Dense4 weight t =
     (if list_all (list_all (list_all (\<lambda>v. length v = dim1 weight))) t
      then Some (map (map (map (\<lambda>v. map (\<lambda>row. sum_list (map2 (*) v row)) weight))) t)
      else None)"

definition Softmax4_2 :: "real tensor4 \<Rightarrow> real tensor4" where
  "Softmax4_2 t =
     map (map (\<lambda>m. map (\<lambda>row. tab (length row) (\<lambda>c.
       exp (row ! c) / sum_list (map (\<lambda>r. exp (r ! c)) m))) m)) t"

text \<open>\<open>scores * x\<close> on tensors of the same shape, and \<open>P.ReduceSum(keep_dims=True)(t, -1)\<close>.\<close>

definition mul4 :: "real tensor4 \<Rightarrow> real tensor4 \<Rightarrow> real tensor4 option" where
  "mul4 a b =
     (if same_shape4 a b then Some (map2 (map2 (map2 (map2 (*)))) a b) else None)"

definition ReduceSum4_last_keep :: "real tensor4 \<Rightarrow> real tensor4" where
  "ReduceSum4_last_keep t = map (map (map (\<lambda>r. [sum_list r]))) t"

text \<open>
  \<open>AttentivePooling\<close>: \<open>score_weight\<close> is the weight of the dense layer of
  \<open>self.score_fn\<close>, \<open>ap_mlp\<close> is \<open>self.mlp\<close>.
\<close>

record attentive_pooling =
  score_weight :: "real tensor2"
  ap_mlp :: shared_mlp

definition AttentivePooling_construct ::
  "attentive_pooling \<Rightarrow> real tensor4 \<Rightarrow> real tensor4 option" where
  "AttentivePooling_construct ap x =
     do {
       dense \<leftarrow> Dense4 (score_weight ap) (transpose4_0231 x);
       let scores = transpose4_0312 (Softmax4_2 dense);
       features \<leftarrow> mul4 scores x;
       let features = ReduceSum4_last_keep features;
       SharedMLP_construct (ap_mlp ap) features
     }"

section \<open>\<open>AttentivePooling\<close> over an arithmetic\<close>

text \<open>
  The tensors of the network are \<open>float32\<close>. A finite \<open>float32\<close> value is a real
  number, and an operation on such values returns the exact result rounded to the nearest
  value with a significand of 24 bits, a tie going to the even significand. \<open>round32\<close>
  is this rounding: \<open>ilog2 x\<close> is the exponent of \<open>x\<close>, that is
  \<open>2 ^ ilog2 x \<le> x < 2 ^ (ilog2 x + 1)\<close> for \<open>0 < x\<close>, and the spacing of the values
  around \<open>x\<close> is \<open>2 ^ (ilog2 x - 23)\<close>, and \<open>2 ^ -149\<close> below the normal range.
  Overflow to an infinity and NaN are not represented.
\<close>

definition pow2 :: "int \<Rightarrow> real" where
  "pow2 k = (if 0 \<le> k then 2 ^ nat k else 1 / 2 ^ nat (- k))"

definition ilog2 :: "real \<Rightarrow> int" where
  "ilog2 x =
     (if 1 \<le> x then int (floorlog 2 (nat \<lfloor>x\<rfloor>)) - 1
      else - int (floorlog 2 (nat \<lceil>1 / x\<rceil> - 1)))"

definition round_even :: "real \<Rightarrow> int" where
  "round_even r =
     (let f = \<lfloor>r\<rfloor>; d = r - of_int f
      in if d < 1 / 2 then f else if 1 / 2 < d then f + 1
         else if even f then f else f + 1)"

definition round32 :: "real \<Rightarrow> real" where
  "round32 x =
     (if x = 0 then 0
      else let ulp = pow2 (max (ilog2 \<bar>x\<bar> - 23) (- 149))
           in sgn x * of_int (round_even (\<bar>x\<bar> / ulp)) * ulp)"

text \<open>
  The arithmetic used by \<open>AttentivePooling.construct\<close>: the addition and the
  multiplication of the dense layer, of \<open>scores * x\<close> and of \<open>P.ReduceSum\<close>, and
  the exponential and the division of \<open>nn.Softmax\<close>. \<open>exact_arith\<close> computes in the
  reals, \<open>float32_arith\<close> rounds the result of every operation. A sum accumulates its
  terms from the first to the last, starting from 0.
\<close>

record arith =
  ar_add :: "real \<Rightarrow> real \<Rightarrow> real"
  ar_mul :: "real \<Rightarrow> real \<Rightarrow> real"
  ar_div :: "real \<Rightarrow> real \<Rightarrow> real"
  ar_exp :: "real \<Rightarrow> real"

definition exact_arith :: arith where
  "exact_arith = \<lparr> ar_add = (+), ar_mul = (*), ar_div = (/), ar_exp = exp \<rparr>"

definition float32_arith :: arith where
  "float32_arith =
     \<lparr> ar_add = (\<lambda>x y. round32 (x + y)), ar_mul = (\<lambda>x y. round32 (x * y)),
       ar_div = (\<lambda>x y. round32 (x / y)), ar_exp = (\<lambda>x. round32 (exp x)) \<rparr>"

definition ar_sum :: "arith \<Rightarrow> real list \<Rightarrow> real" where
  "ar_sum ar xs = foldl (ar_add ar) 0 xs"

text \<open>The layers of \<open>AttentivePooling.construct\<close> and the method itself, over an arithmetic.\<close>

definition Dense4_ar :: "arith \<Rightarrow> real tensor2 \<Rightarrow> real tensor4 \<Rightarrow> real tensor4 option" where
  "Dense4_ar ar weight t =
     (if list_all (list_all (list_all (\<lambda>v. length v = dim1 weight))) t
      then Some (map (map (map (\<lambda>v.
             map (\<lambda>row. ar_sum ar (map2 (ar_mul ar) v row)) weight))) t)
      else None)"

definition Softmax4_2_ar :: "arith \<Rightarrow> real tensor4 \<Rightarrow> real tensor4" where
  "Softmax4_2_ar ar t =
     map (map (\<lambda>m. map (\<lambda>row. tab (length row) (\<lambda>c.
       ar_div ar (ar_exp ar (row ! c)) (ar_sum ar (map (\<lambda>r. ar_exp ar (r ! c)) m)))) m)) t"

definition mul4_ar :: "arith \<Rightarrow> real tensor4 \<Rightarrow> real tensor4 \<Rightarrow> real tensor4 option" where
  "mul4_ar ar a b =
     (if same_shape4 a b then Some (map2 (map2 (map2 (map2 (ar_mul ar)))) a b) else None)"

definition ReduceSum4_last_keep_ar :: "arith \<Rightarrow> real tensor4 \<Rightarrow> real tensor4" where
  "ReduceSum4_last_keep_ar ar t = map (map (map (\<lambda>r. [ar_sum ar r]))) t"

definition AttentivePooling_construct_ar ::
  "arith \<Rightarrow> attentive_pooling \<Rightarrow> real tensor4 \<Rightarrow> real tensor4 option" where
  "AttentivePooling_construct_ar ar ap x =
     do {
       dense \<leftarrow> Dense4_ar ar (score_weight ap) (transpose4_0231 x);
       let scores = transpose4_0312 (Softmax4_2_ar ar dense);
       features \<leftarrow> mul4_ar ar scores x;
       let features = ReduceSum4_last_keep_ar ar features;
       SharedMLP_construct (ap_mlp ap) features
     }"

section \<open>Notions used in the statements\<close>

text \<open>The set of values that occur in a tensor.\<close>

definition entries3 :: "'a tensor3 \<Rightarrow> 'a set" where
  "entries3 t = set (flatten3 t)"

definition entries4 :: "'a tensor4 \<Rightarrow> 'a set" where
  "entries4 t = set (flatten4 t)"

fun label_entries :: "label_tensor \<Rightarrow> real set" where
  "label_entries (Int32 t) = real_of_int ` entries3 t"
| "label_entries (Float32 t) = entries3 t"

text \<open>
  The mean of the sigmoid cross-entropy over all positions of two tensors of shape
  \<open>(B, N, C)\<close>, written with indices.
\<close>

definition mean_sce3 ::
  "(real \<Rightarrow> real \<Rightarrow> real) \<Rightarrow> nat \<Rightarrow> nat \<Rightarrow> nat \<Rightarrow> real tensor3 \<Rightarrow> real tensor3 \<Rightarrow> real" where
  "mean_sce3 sce B N C logits labels =
     (\<Sum>b<B. \<Sum>n<N. \<Sum>c<C. sce (logits ! b ! n ! c) (labels ! b ! n ! c)) / real (B * N * C)"

text \<open>
  The mean over all entries \<open>x\<close> of a tensor of the sigmoid cross-entropy between
  \<open>x\<close> and the indicator of \<open>x \<ge> 0\<close>.
\<close>

definition mean_self_sce :: "(real \<Rightarrow> real \<Rightarrow> real) \<Rightarrow> real tensor4 \<Rightarrow> real" where
  "mean_self_sce sce t =
     mean_list (map (\<lambda>x. sce x (if 0 \<le> x then 1 else 0)) (flatten4 t))"

text \<open>
  The weight of the class \<open>l\<close>; a label outside \<open>[0, num_classes)\<close> has an all-zero
  one-hot row and so the weight 0.
\<close>

definition class_weight :: "real list \<Rightarrow> int \<Rightarrow> real" where
  "class_weight w l = (if 0 \<le> l \<and> l < int (length w) then w ! nat l else 0)"

text \<open>
  The output of the dense layer of the attention at batch element \<open>b\<close>, point
  \<open>n\<close>, neighbour \<open>k\<close> and output channel \<open>c\<close>, for an input with \<open>d\<close>
  channels; the attention score, normalised over the \<open>K\<close> neighbours; and the pooled
  feature, the sum over the neighbours of score times input.
\<close>

definition dense_out :: "real tensor2 \<Rightarrow> real tensor4 \<Rightarrow> nat \<Rightarrow> nat \<Rightarrow> nat \<Rightarrow> nat \<Rightarrow> nat \<Rightarrow> real" where
  "dense_out W x d b n k c = (\<Sum>i<d. x ! b ! i ! n ! k * W ! c ! i)"

definition att_score ::
  "real tensor2 \<Rightarrow> real tensor4 \<Rightarrow> nat \<Rightarrow> nat \<Rightarrow> nat \<Rightarrow> nat \<Rightarrow> nat \<Rightarrow> nat \<Rightarrow> real" where
  "att_score W x d K b c n k =
     exp (dense_out W x d b n k c) / (\<Sum>j<K. exp (dense_out W x d b n j c))"

definition pooled_feature ::
  "real tensor2 \<Rightarrow> real tensor4 \<Rightarrow> nat \<Rightarrow> nat \<Rightarrow> nat \<Rightarrow> nat \<Rightarrow> nat \<Rightarrow> real" where
  "pooled_feature W x d K b c n = (\<Sum>k<K. att_score W x d K b c n k * x ! b ! c ! n ! k)"

text \<open>Reordering the last axis of a tensor with \<open>K\<close> entries along it by \<open>\<pi>\<close>.\<close>

definition permute_row :: "(nat \<Rightarrow> nat) \<Rightarrow> nat \<Rightarrow> 'a list \<Rightarrow> 'a list" where
  "permute_row \<pi> K r = map (\<lambda>k. r ! \<pi> k) [0..<K]"

fun label_is_shape :: "nat \<Rightarrow> nat \<Rightarrow> nat \<Rightarrow> label_tensor \<Rightarrow> bool" where
  "label_is_shape n m k (Int32 t) = is_shape3 n m k t"
| "label_is_shape n m k (Float32 t) = is_shape3 n m k t"

text \<open>
  The value of one pooled entry: the maximum of the features of channel \<open>c\<close> of
  batch element \<open>b\<close> at the points that \<open>row\<close> lists.
\<close>

definition pooled :: "'a::linorder tensor4 \<Rightarrow> nat \<Rightarrow> nat \<Rightarrow> int list \<Rightarrow> 'a" where
  "pooled feature b c row =
     max_list (map (\<lambda>i. feature ! b ! c ! wrap_index (dim2 feature) i ! 0) row)"

text \<open>The invariant of the encoder loop on \<open>multihot_labels\<close>.\<close>

definition labels_inv ::
  "nat \<Rightarrow> (nat \<Rightarrow> nat) \<Rightarrow> label_tensor \<Rightarrow> int tensor3 list \<Rightarrow> int tensor3 list
     \<Rightarrow> nat \<Rightarrow> encoder_state \<Rightarrow> bool" where
  "labels_inv B N first neighbor_idx sub_idx i st =
     (length (enc_multihot_labels st) = Suc i
      \<and> enc_multihot_labels st ! 0 = first
      \<and> (\<forall>k \<le> i. label_is_shape B (N k) 13 (enc_multihot_labels st ! k)
                  \<and> label_entries (enc_multihot_labels st ! k) \<subseteq> {0, 1})
      \<and> (\<forall>k < i. \<exists>t. enc_multihot_labels st ! Suc k = Float32 t
                  \<and> label_sample (enc_multihot_labels st ! k) (neighbor_idx ! k) (sub_idx ! k)
                      = Some t))"

section \<open>A small network and input\<close>

text \<open>
  A network whose first dense layer sums the input features of a point and whose other
  cells repeat the first channel of their input a fixed number of times (\<open>chan k\<close>
  returns \<open>k\<close> channels), and an input with one batch element,
  three points with two neighbours each at the first level and one point at the other
  levels. They serve to
  run the model.
\<close>

definition chan :: "nat \<Rightarrow> real tensor4 \<Rightarrow> real tensor4" where
  "chan k t = map (\<lambda>b. rep k (take 1 b)) t"

definition ex_layers :: layers where
  "ex_layers =
     \<lparr> fc_start = (\<lambda>t. Some (map (map (\<lambda>v. [sum_list v])) t)),
       bn_start = (\<lambda>t. Some (chan 1 t)),
       encoder = (\<lambda>i coords f idx. Some (chan 2 f)),
       mlp = (\<lambda>t. Some (chan 2 t)),
       supervise = (\<lambda>k t. Some (chan 13 t)),
       Se = (\<lambda>k t. Some (chan 2 t)),
       decoder = (\<lambda>j t. Some (chan 2 t)),
       fc_end = (\<lambda>t. Some (chan 3 t)) \<rparr>"

definition ex_neighbor_idx :: "int tensor3 list" where
  "ex_neighbor_idx = [[[[0, 1], [1, 1], [2, 2]]], [[[0]]], [[[0]]], [[[0]]], [[[0]]]]"

definition ex_sub_idx :: "int tensor3 list" where
  "ex_sub_idx = [[[[0, 1]]], [[[0]]], [[[0]]], [[[0]]], [[[0]]]]"

definition ex_interp_idx :: "int tensor3 list" where
  "ex_interp_idx = [[[[0], [0], [0]]], [[[0]]], [[[0]]], [[[0]]], [[[0]]]]"

definition ex_xyz :: "real tensor3 list" where
  "ex_xyz = [[[[0, 0, 0], [1, 0, 0], [0, 1, 0]]], [[[0, 0, 0]]], [[[0, 0, 0]]],
             [[[0, 0, 0]]], [[[0, 0, 0]]]]"

text \<open>Lists of the form that the network returns, with \<open>B = 1\<close>, one point and two classes.\<close>

definition ex_multihot_labels :: "label_tensor list" where
  "ex_multihot_labels =
     [Int32 [[[0, 1], [1, 0]]], Float32 [[[1, 1]]], Float32 [[[1, 0]]], Float32 [[[0, 1]]],
      Float32 [[[1, 1]]], Float32 [[[0, 0]]]]"

definition ex_supervised_features :: "real tensor3 list" where
  "ex_supervised_features =
     [[[[1, 2]]], [[[3, 4]]], [[[5, 6]]], [[[7, 8]]], [[[9, 10]]], [[[11, 12], [13, 14]]]]"

text \<open>The logits of the point \<open>n\<close> of batch element \<open>b\<close>, one per class.\<close>

definition logit_row :: "real tensor3 \<Rightarrow> nat \<Rightarrow> nat \<Rightarrow> nat \<Rightarrow> real list" where
  "logit_row logits C b n = map (\<lambda>c. logits ! b ! c ! n) [0..<C]"

text \<open>
  Claim C2. For logits of shape \<open>(B, C, N)\<close> with \<open>C = num_classes\<close>, labels of
  shape \<open>(B, N)\<close> and one weight per class, \<open>WeightCEloss.construct\<close> returns the
  mean over the \<open>B * N\<close> points of the softmax cross-entropy between the point's row
  of logits and the one-hot row of its label, times the weight of the label's class.
\<close>










text \<open>
  An attentive pooling of one channel whose dense layer has the weight 0, so that the
  three neighbours of a point get the same score, with a \<open>SharedMLP\<close> that returns its
  input; and the exchange of the last two of three neighbours.
\<close>

definition ex_zero_pooling :: attentive_pooling where
  "ex_zero_pooling =
     \<lparr> score_weight = [[0]],
       ap_mlp = \<lparr> conv = Some, has_bn = True, batch_norm = Some,
                  activation_fn = Some Some \<rparr> \<rparr>"

definition swap_last :: "nat \<Rightarrow> nat" where
  "swap_last k = (if k = 1 then 2 else if k = 2 then 1 else k)"

chapter \<open>Verified properties\<close>

section \<open>Parameter groups\<close>

lemma param_loop_filter:
  "param_loop ps (dp, ndp) =
     (dp @ filter (\<lambda>x. \<not> no_decay_name (name x)) ps,
      ndp @ filter (\<lambda>x. no_decay_name (name x)) ps)"
  by (induction ps arbitrary: dp ndp) (simp_all add: no_decay_name_def Let_def)

text \<open>
  Claim C10. \<open>get_param_groups\<close> returns two dictionaries. The first holds, under
  \<open>params\<close>, the parameters whose name ends with \<open>.bias\<close>, \<open>.gamma\<close> or
  \<open>.beta\<close> (in their original order) and \<open>weight_decay\<close> 0.0; the second holds the
  remaining parameters and has no \<open>weight_decay\<close> key. The two lists together are the
  parameter list as a multiset (nothing dropped, nothing duplicated) and have no
  parameter in common.
\<close>

theorem get_param_groups_partition:
  "get_param_groups ps =
     [[(''params'', PList (filter (\<lambda>x. no_decay_name (name x)) ps)),
       (''weight_decay'', PFloat 0)],
      [(''params'', PList (filter (\<lambda>x. \<not> no_decay_name (name x)) ps))]]
   \<and> map_of (get_param_groups ps ! 0) ''weight_decay'' = Some (PFloat 0)
   \<and> map_of (get_param_groups ps ! 1) ''weight_decay'' = None
   \<and> mset (filter (\<lambda>x. no_decay_name (name x)) ps)
       + mset (filter (\<lambda>x. \<not> no_decay_name (name x)) ps) = mset ps
   \<and> set (filter (\<lambda>x. no_decay_name (name x)) ps)
       \<inter> set (filter (\<lambda>x. \<not> no_decay_name (name x)) ps) = {}"
  by (auto simp add: get_param_groups_def param_loop_filter)

section \<open>Tensor operations\<close>


lemma length_tab [simp]: "length (tab n f) = n"
  by (simp add: tab_def)

lemma nth_tab [simp]: "i < n \<Longrightarrow> tab n f ! i = f i"
  by (simp add: tab_def)

lemma tab_cong: "(\<And>i. i < n \<Longrightarrow> f i = g i) \<Longrightarrow> tab n f = tab n g"
  by (simp add: tab_def)

lemma map_tab: "map h (tab n f) = tab n (\<lambda>i. h (f i))"
  by (simp add: tab_def)

lemma wrap_index_less: "index_ok n i \<Longrightarrow> wrap_index n i < n"
  by (auto simp add: index_ok_def wrap_index_def)

lemma tab_eq_map_nth: "length xs = n \<Longrightarrow> tab n (\<lambda>i. f (xs ! i)) = map f xs"
  by (rule nth_equalityI) simp_all

lemma is_shape2_nth: "is_shape2 n m t \<Longrightarrow> i < n \<Longrightarrow> length (t ! i) = m"
  by (simp add: is_shape2_def list_all_length)

lemma is_shape3_nth: "is_shape3 n m k t \<Longrightarrow> i < n \<Longrightarrow> is_shape2 m k (t ! i)"
  by (simp add: is_shape3_def list_all_length)

lemma is_shape4_nth: "is_shape4 n m k l t \<Longrightarrow> i < n \<Longrightarrow> is_shape3 m k l (t ! i)"
  by (simp add: is_shape4_def list_all_length)

lemma is_shape2_length: "is_shape2 n m t \<Longrightarrow> length t = n"
  by (simp add: is_shape2_def)

lemma is_shape3_length: "is_shape3 n m k t \<Longrightarrow> length t = n"
  by (simp add: is_shape3_def)

lemma is_shape4_length: "is_shape4 n m k l t \<Longrightarrow> length t = n"
  by (simp add: is_shape4_def)

lemma is_shape2_set: "is_shape2 n m t \<Longrightarrow> r \<in> set t \<Longrightarrow> length r = m"
  by (simp add: is_shape2_def list_all_iff)

lemma is_shape3_set: "is_shape3 n m k t \<Longrightarrow> r \<in> set t \<Longrightarrow> is_shape2 m k r"
  by (simp add: is_shape3_def list_all_iff)

lemma is_shape4_set: "is_shape4 n m k l t \<Longrightarrow> r \<in> set t \<Longrightarrow> is_shape3 m k l r"
  by (simp add: is_shape4_def list_all_iff)

lemma dim1_shape2: "is_shape2 n m t \<Longrightarrow> 0 < n \<Longrightarrow> dim1 t = m"
  by (cases t) (simp_all add: is_shape2_def dim1_def dim0_def)

lemma dim1_shape3: "is_shape3 n m k t \<Longrightarrow> 0 < n \<Longrightarrow> dim1 t = m"
  by (cases t) (simp_all add: is_shape3_def is_shape2_def dim1_def dim0_def)

lemma dim2_shape3: "is_shape3 n m k t \<Longrightarrow> 0 < n \<Longrightarrow> 0 < m \<Longrightarrow> dim2 t = k"
  by (cases t) (auto simp add: is_shape3_def dim2_def dim1_shape2)

lemma dim1_shape4: "is_shape4 n m k l t \<Longrightarrow> 0 < n \<Longrightarrow> dim1 t = m"
  by (cases t) (simp_all add: is_shape4_def is_shape3_def dim1_def dim0_def)

lemma dim2_shape4: "is_shape4 n m k l t \<Longrightarrow> 0 < n \<Longrightarrow> 0 < m \<Longrightarrow> dim2 t = k"
  by (cases t) (auto simp add: is_shape4_def dim2_def dim1_shape3)

lemma dim3_shape4: "is_shape4 n m k l t \<Longrightarrow> 0 < n \<Longrightarrow> 0 < m \<Longrightarrow> 0 < k \<Longrightarrow> dim3 t = l"
  by (cases t) (auto simp add: is_shape4_def dim3_def dim2_shape3)

lemma length_concat_rect:
  "\<forall>r \<in> set xss. length r = m \<Longrightarrow> length (concat xss) = length xss * m"
  by (induction xss) simp_all

lemma take_drop_concat_rect:
  "\<forall>r \<in> set xss. length r = m \<Longrightarrow> i < length xss
     \<Longrightarrow> take m (drop (i * m) (concat xss)) = xss ! i"
proof (induction xss arbitrary: i)
  case Nil
  then show ?case by simp
next
  case (Cons r xss)
  show ?case
  proof (cases i)
    case 0
    with Cons.prems show ?thesis by simp
  next
    case (Suc j)
    with Cons show ?thesis by simp
  qed
qed

lemma split_rows_concat:
  assumes "\<forall>r \<in> set xss. length r = m"
  shows "split_rows (length xss) (concat xss) = xss"
proof (cases "xss = []")
  case True
  then show ?thesis by (simp add: split_rows_def)
next
  case False
  then have pos: "0 < length xss" by simp
  have len: "length (concat xss) div length xss = m"
    using length_concat_rect [OF assms] pos by simp
  show ?thesis
    unfolding split_rows_def Let_def len
    by (rule nth_equalityI) (simp_all add: take_drop_concat_rect [OF assms])
qed

lemma rep_one: "rep (Suc 0) xs = xs"
  by (simp add: rep_def)

lemma rep_single: "rep m [x] = replicate m x"
  by (induction m) (simp_all add: rep_def)

lemma max_list_Max: "xs \<noteq> [] \<Longrightarrow> max_list xs = Max (set xs)"
proof (cases xs)
  case Nil
  assume "xs \<noteq> []"
  with Nil show ?thesis by simp
next
  case (Cons a list)
  have "Max (set (a # list)) = fold max list a" by (rule Max.set_eq_fold)
  with Cons show ?thesis by (simp add: max_list_def)
qed

lemma concat_concat_map: "concat (concat xsss) = concat (map concat xsss)"
  by (induction xsss) simp_all

lemma flatten3_map: "flatten3 t = concat (map concat t)"
  by (simp add: flatten3_def concat_concat_map)

lemma flatten4_map: "flatten4 t = concat (map flatten3 t)"
  unfolding flatten4_def flatten3_def
  by (simp add: concat_concat_map map_concat comp_def)

lemma length_flatten3:
  assumes "is_shape3 d n k a"
  shows "length (flatten3 a) = d * (n * k)"
proof -
  have "\<forall>r \<in> set (map concat a). length r = n * k"
  proof
    fix r assume "r \<in> set (map concat a)"
    then obtain m where m: "m \<in> set a" and r: "r = concat m" by auto
    from is_shape3_set [OF assms m] have "length m = n" "\<forall>x \<in> set m. length x = k"
      by (simp_all add: is_shape2_def list_all_iff)
    then show "length r = n * k" using length_concat_rect [of m k] r by simp
  qed
  from length_concat_rect [OF this] show ?thesis
    using is_shape3_length [OF assms] by (simp add: flatten3_map)
qed

lemma split_rows_flatten3:
  assumes "is_shape3 d n k a"
  shows "split_rows d (flatten3 a) = map concat a"
proof -
  have "\<forall>r \<in> set (map concat a). length r = n * k"
  proof
    fix r assume "r \<in> set (map concat a)"
    then obtain m where m: "m \<in> set a" and r: "r = concat m" by auto
    from is_shape3_set [OF assms m] have "length m = n" "\<forall>x \<in> set m. length x = k"
      by (simp_all add: is_shape2_def list_all_iff)
    then show "length r = n * k" using length_concat_rect [of m k] r by simp
  qed
  from split_rows_concat [OF this] show ?thesis
    using is_shape3_length [OF assms] by (simp add: flatten3_map)
qed

lemma reshape3_flatten4:
  assumes sh: "is_shape4 b d n k t" and pos: "0 < b" "0 < d"
  shows "reshape3_infer b d (flatten4 t) = Some (map (map concat) t)"
proof -
  have rows: "\<forall>r \<in> set (map flatten3 t). length r = d * (n * k)"
    using is_shape4_set [OF sh] by (auto simp add: length_flatten3)
  have len: "length (flatten4 t) = b * (d * (n * k))"
    using length_concat_rect [OF rows] is_shape4_length [OF sh] by (simp add: flatten4_map)
  have "split_rows b (flatten4 t) = map flatten3 t"
    using split_rows_concat [OF rows] is_shape4_length [OF sh] by (simp add: flatten4_map)
  moreover have "map (split_rows d) (map flatten3 t) = map (map concat) t"
  proof -
    have "\<And>a. a \<in> set t \<Longrightarrow> split_rows d (flatten3 a) = map concat a"
      by (rule split_rows_flatten3) (rule is_shape4_set [OF sh])
    then show ?thesis by simp
  qed
  ultimately show ?thesis
    using pos by (simp add: reshape3_infer_def len)
qed

lemma reshape4_flatten3:
  assumes sh: "is_shape3 b d m g" and pos: "0 < b" "0 < d" "0 < n" and m: "m = n * k"
  shows "reshape4_infer b d n (flatten3 g) = Some (map (map (split_rows n)) g)"
proof -
  have rows: "\<forall>r \<in> set (map concat g). length r = d * m"
  proof
    fix r assume "r \<in> set (map concat g)"
    then obtain a where a: "a \<in> set g" and r: "r = concat a" by auto
    from is_shape3_set [OF sh a] have "length a = d" "\<forall>x \<in> set a. length x = m"
      by (simp_all add: is_shape2_def list_all_iff)
    then show "length r = d * m" using length_concat_rect [of a m] r by simp
  qed
  have len: "length (flatten3 g) = b * (d * (n * k))"
    using length_concat_rect [OF rows] is_shape3_length [OF sh] m by (simp add: flatten3_map)
  have "split_rows b (flatten3 g) = map concat g"
    using split_rows_concat [OF rows] is_shape3_length [OF sh] by (simp add: flatten3_map)
  moreover have "map (split_rows d) (map concat g) = g"
  proof -
    have "\<And>a. a \<in> set g \<Longrightarrow> split_rows d (concat a) = a"
    proof -
      fix a assume a: "a \<in> set g"
      from is_shape3_set [OF sh a] have "length a = d" "\<forall>x \<in> set a. length x = m"
        by (simp_all add: is_shape2_def list_all_iff)
      then show "split_rows d (concat a) = a" using split_rows_concat [of a m] by simp
    qed
    then show ?thesis by (simp add: map_idI)
  qed
  ultimately show ?thesis
    using pos by (simp add: reshape4_infer_def len)
qed

lemma split_rows_map_concat:
  assumes "\<forall>r \<in> set xss. length r = k"
  shows "split_rows (length xss) (map f (concat xss)) = map (map f) xss"
proof -
  have "\<forall>r \<in> set (map (map f) xss). length r = k" using assms by simp
  from split_rows_concat [OF this] show ?thesis by (simp add: map_concat)
qed

lemma map_rep_one: "map (rep (Suc 0)) xs = xs"
  by (induction xs) (simp_all add: rep_one)

lemma Tile4_channel:
  "Tile4 (Suc 0, d, Suc 0, Suc 0) (expand_dims3_1 t) = map (replicate d) t"
  by (simp add: Tile4_def expand_dims3_1_def rep_one rep_single map_rep_one comp_def)

lemma squeeze4_last_shape:
  assumes "is_shape4 b d n (Suc 0) t"
  shows "squeeze4_last t = Some (map (map (map hd)) t)"
proof -
  have "list_all (list_all (list_all (\<lambda>r. length r = 1))) t"
    using assms by (auto simp add: is_shape4_def is_shape3_def is_shape2_def list_all_iff)
  then show ?thesis by (simp add: squeeze4_last_def)
qed

lemma is_shape3_squeezed:
  assumes "is_shape4 b d n l t"
  shows "is_shape3 b d n (map (map (map f)) t)"
  using assms by (auto simp add: is_shape4_def is_shape3_def is_shape2_def list_all_iff)

lemma is_shape3_pool_idx2:
  assumes "is_shape3 b n k idx"
  shows "is_shape3 b d (n * k) (map (map concat) (map (replicate d) idx))"
proof -
  have "\<And>m. m \<in> set idx \<Longrightarrow> length (concat m) = n * k"
  proof -
    fix m assume m: "m \<in> set idx"
    from is_shape3_set [OF assms m] have "length m = n" "\<forall>x \<in> set m. length x = k"
      by (simp_all add: is_shape2_def list_all_iff)
    then show "length (concat m) = n * k" using length_concat_rect [of m k] by simp
  qed
  then show ?thesis
    using is_shape3_length [OF assms]
    by (auto simp add: is_shape3_def is_shape2_def list_all_iff)
qed

lemma random_sample_eq:
  fixes feature :: "'a::linorder tensor4"
  assumes f: "is_shape4 B d N (Suc 0) feature"
    and p: "is_shape3 B N' K pool_idx"
    and pos: "0 < B" "0 < d" "0 < N'" "0 < K"
    and ok: "list_all (list_all (list_all (index_ok N))) pool_idx"
  shows "random_sample feature pool_idx =
           Some (tab B (\<lambda>b. tab d (\<lambda>c. map (\<lambda>row. [pooled feature b c row]) (pool_idx ! b))))"
proof -
  let ?sq = "map (map (map hd)) feature"
  let ?idx2 = "map (map concat) (map (replicate d) pool_idx)"
  let ?g = "tab B (\<lambda>b. tab d (\<lambda>c. map (\<lambda>i. ?sq ! b ! c ! wrap_index N i) (concat (pool_idx ! b))))"
  have lenf: "length feature = B" and lenp: "length pool_idx = B"
    using f p by (simp_all add: is_shape4_length is_shape3_length)
  have d0: "dim0 feature = B" "dim1 feature = d" "dim1 pool_idx = N'" "dim2 feature = N"
    using f p pos by (simp_all add: dim0_def is_shape4_length dim1_shape4 dim1_shape3 dim2_shape4)
  have t: "is_shape4 B d N' K (map (replicate d) pool_idx)"
    using p by (auto simp add: is_shape4_def is_shape3_def list_all_iff)
  have s1: "reshape3_infer B d (flatten4 (map (replicate d) pool_idx)) = Some ?idx2"
    by (rule reshape3_flatten4 [OF t pos(1,2)])
  have s2: "squeeze4_last feature = Some ?sq"
    by (rule squeeze4_last_shape [OF f])
  have sq: "is_shape3 B d N ?sq" by (rule is_shape3_squeezed [OF f])
  have i2: "is_shape3 B d (N' * K) ?idx2" by (rule is_shape3_pool_idx2 [OF p])
  have dsq: "dim0 ?sq = B" "dim1 ?sq = d" "dim2 ?sq = N"
    using sq pos by (simp_all add: dim0_def lenf dim1_shape3 dim2_shape3)
  have di2: "dim0 ?idx2 = B" "dim1 ?idx2 = d"
    using i2 pos by (simp_all add: dim0_def lenp dim1_shape3)
  have ok2: "list_all (list_all (list_all (index_ok N))) ?idx2"
    using ok by (auto simp add: list_all_iff)
  have s3: "GatherD3_last ?sq ?idx2 = Some ?g"
  proof -
    have "tab B (\<lambda>b. tab d (\<lambda>c. map (\<lambda>i. ?sq ! b ! c ! wrap_index N i) (?idx2 ! b ! c))) = ?g"
      by (intro tab_cong) (simp add: lenp)
    then show ?thesis
      unfolding GatherD3_last_def dsq di2 using ok2 by simp
  qed
  have g: "is_shape3 B d (N' * K) ?g"
  proof -
    have "\<And>b. b < B \<Longrightarrow> length (concat (pool_idx ! b)) = N' * K"
    proof -
      fix b assume b: "b < B"
      from is_shape3_nth [OF p b] have "length (pool_idx ! b) = N'"
        "\<forall>x \<in> set (pool_idx ! b). length x = K"
        by (simp_all add: is_shape2_def list_all_iff)
      then show "length (concat (pool_idx ! b)) = N' * K"
        using length_concat_rect [of "pool_idx ! b" K] by simp
    qed
    then show ?thesis
      by (simp add: is_shape3_def is_shape2_def list_all_length)
  qed
  have s4: "reshape4_infer B d N' (flatten3 ?g) = Some (map (map (split_rows N')) ?g)"
    by (rule reshape4_flatten3 [OF g pos(1,2,3) refl])
  let ?h = "\<lambda>b c i. ?sq ! b ! c ! wrap_index N i"
  have g4: "map (map (split_rows N')) ?g
              = tab B (\<lambda>b. tab d (\<lambda>c. map (map (?h b c)) (pool_idx ! b)))"
  proof -
    have "\<And>b c. b < B \<Longrightarrow>
            split_rows N' (map (?h b c) (concat (pool_idx ! b))) = map (map (?h b c)) (pool_idx ! b)"
    proof -
      fix b c assume b: "b < B"
      from is_shape3_nth [OF p b] have l: "length (pool_idx ! b) = N'"
        and r: "\<forall>x \<in> set (pool_idx ! b). length x = K"
        by (simp_all add: is_shape2_def list_all_iff)
      from split_rows_map_concat [OF r, of "?h b c"] l
      show "split_rows N' (map (?h b c) (concat (pool_idx ! b))) = map (map (?h b c)) (pool_idx ! b)"
        by simp
    qed
    then show ?thesis by (simp add: map_tab cong: tab_cong)
  qed
  have ne: "list_all (list_all (list_all (\<lambda>r. r \<noteq> [])))
              (tab B (\<lambda>b. tab d (\<lambda>c. map (map (?h b c)) (pool_idx ! b))))"
  proof -
    have "\<And>b r. b < B \<Longrightarrow> r \<in> set (pool_idx ! b) \<Longrightarrow> r \<noteq> []"
    proof -
      fix b r assume b: "b < B" and r: "r \<in> set (pool_idx ! b)"
      from is_shape3_nth [OF p b] r have "length r = K"
        by (simp add: is_shape2_def list_all_iff)
      with pos show "r \<noteq> []" by auto
    qed
    then show ?thesis by (auto simp add: list_all_length tab_def)
  qed
  have fin: "map (map (map (\<lambda>r. [max_list r])))
               (tab B (\<lambda>b. tab d (\<lambda>c. map (map (?h b c)) (pool_idx ! b))))
             = tab B (\<lambda>b. tab d (\<lambda>c. map (\<lambda>row. [pooled feature b c row]) (pool_idx ! b)))"
  proof -
    have "\<And>b c row. b < B \<Longrightarrow> c < d \<Longrightarrow> row \<in> set (pool_idx ! b)
            \<Longrightarrow> map (?h b c) row = map (\<lambda>i. feature ! b ! c ! wrap_index N i ! 0) row"
    proof -
      fix b c row assume b: "b < B" and c: "c < d" and row: "row \<in> set (pool_idx ! b)"
      have fb: "length (feature ! b) = d" using is_shape4_nth [OF f b] by (simp add: is_shape3_length)
      have fc: "is_shape2 N (Suc 0) (feature ! b ! c)"
        using is_shape3_nth [OF is_shape4_nth [OF f b] c] .
      have "\<And>i. i \<in> set row \<Longrightarrow> ?h b c i = feature ! b ! c ! wrap_index N i ! 0"
      proof -
        fix i assume "i \<in> set row"
        with ok row b lenp have "index_ok N i"
          by (auto simp add: list_all_iff) (metis nth_mem)
        then have w: "wrap_index N i < N" by (rule wrap_index_less)
        from is_shape2_nth [OF fc w] have "length (feature ! b ! c ! wrap_index N i) = Suc 0" .
        then have "hd (feature ! b ! c ! wrap_index N i) = feature ! b ! c ! wrap_index N i ! 0"
          by (cases "feature ! b ! c ! wrap_index N i") simp_all
        then show "?h b c i = feature ! b ! c ! wrap_index N i ! 0"
          using b c w lenf fb is_shape2_length [OF fc] by simp
      qed
      then show "map (?h b c) row = map (\<lambda>i. feature ! b ! c ! wrap_index N i ! 0) row"
        by simp
    qed
    then show ?thesis
      by (simp add: map_tab pooled_def d0 cong: tab_cong map_cong)
  qed
  show ?thesis
    unfolding random_sample_def Let_def d0 
    using s1 s2 s3 s4 ne
    by (simp add: Tile4_channel g4 ReduceMax4_last_keep_def fin)
qed



lemma pooled_Max:
  fixes feature :: "'a::linorder tensor4"
  assumes "length row = K" "0 < K" "\<forall>i \<in> set row. 0 \<le> i"
  shows "pooled feature b c row
           = Max ((\<lambda>k. feature ! b ! c ! nat (row ! k) ! 0) ` {..<K})"
proof -
  let ?h = "\<lambda>i. feature ! b ! c ! wrap_index (dim2 feature) i ! 0"
  have ne: "map ?h row \<noteq> []" using assms by auto
  have "\<And>k. k < K \<Longrightarrow> wrap_index (dim2 feature) (row ! k) = nat (row ! k)"
  proof -
    fix k assume "k < K"
    with assms have "row ! k \<in> set row" by simp
    with assms have "0 \<le> row ! k" by blast
    then show "wrap_index (dim2 feature) (row ! k) = nat (row ! k)"
      by (simp add: wrap_index_def)
  qed
  then have "map ?h row = map (\<lambda>k. feature ! b ! c ! nat (row ! k) ! 0) [0..<K]"
    using assms by (intro nth_equalityI) simp_all
  then have "set (map ?h row) = (\<lambda>k. feature ! b ! c ! nat (row ! k) ! 0) ` {..<K}"
    by (simp add: atLeast0LessThan)
  with max_list_Max [OF ne] show ?thesis by (simp add: pooled_def)
qed

text \<open>
  Claim C8. \<open>random_sample\<close> is a gather followed by a maximum and has no random
  part. For a feature tensor of shape \<open>(B, d, N, 1)\<close> and an index tensor
  \<open>pool_idx\<close> of shape \<open>(B, N', K)\<close> (all axes non-empty) whose entries are in
  \<open>[0, N)\<close>, the call succeeds, the result has shape \<open>(B, d, N', 1)\<close>, and
  \<open>out[b, c, p, 0]\<close> is the maximum over \<open>k < K\<close> of
  \<open>feature[b, c, pool_idx[b, p, k], 0]\<close>. The result is a function of the two
  arguments alone.
\<close>

theorem random_sample_gather_max:
  fixes feature :: "'a::linorder tensor4"
  assumes f: "is_shape4 B d N 1 feature"
    and p: "is_shape3 B N' K pool_idx"
    and pos: "0 < B" "0 < d" "0 < N'" "0 < K"
    and rng: "list_all (list_all (list_all (\<lambda>i. 0 \<le> i \<and> i < int N))) pool_idx"
  shows "\<exists>out. random_sample feature pool_idx = Some out
           \<and> is_shape4 B d N' 1 out
           \<and> (\<forall>b<B. \<forall>c<d. \<forall>p<N'.
                 out ! b ! c ! p ! 0
                   = Max ((\<lambda>k. feature ! b ! c ! nat (pool_idx ! b ! p ! k) ! 0) ` {..<K}))"
proof -
  let ?out = "tab B (\<lambda>b. tab d (\<lambda>c. map (\<lambda>row. [pooled feature b c row]) (pool_idx ! b)))"
  have ok: "list_all (list_all (list_all (index_ok N))) pool_idx"
    using rng by (fastforce simp add: list_all_iff index_ok_def)
  have f': "is_shape4 B d N (Suc 0) feature" using f by simp
  have eq: "random_sample feature pool_idx = Some ?out"
    by (rule random_sample_eq [OF f' p pos ok])
  have lenp: "\<And>b. b < B \<Longrightarrow> length (pool_idx ! b) = N'"
    by (rule is_shape2_length [OF is_shape3_nth [OF p]])
  have sh: "is_shape4 B d N' 1 ?out"
    using lenp by (simp add: is_shape4_def is_shape3_def is_shape2_def list_all_length)
  have val: "\<forall>b<B. \<forall>c<d. \<forall>p<N'.
               ?out ! b ! c ! p ! 0
                 = Max ((\<lambda>k. feature ! b ! c ! nat (pool_idx ! b ! p ! k) ! 0) ` {..<K})"
  proof (intro allI impI)
    fix b c q assume b: "b < B" and c: "c < d" and q: "q < N'"
    have l: "length (pool_idx ! b ! q) = K"
      using is_shape2_nth [OF is_shape3_nth [OF p b] q] .
    have "pool_idx ! b ! q \<in> set (pool_idx ! b)" using lenp [OF b] q by simp
    moreover have "pool_idx ! b \<in> set pool_idx" using is_shape3_length [OF p] b by simp
    ultimately have nn: "\<forall>i \<in> set (pool_idx ! b ! q). 0 \<le> i"
      using rng by (auto simp add: list_all_iff)
    show "?out ! b ! c ! q ! 0
            = Max ((\<lambda>k. feature ! b ! c ! nat (pool_idx ! b ! q ! k) ! 0) ` {..<K})"
      using b c q lenp [OF b] pooled_Max [OF l pos(4) nn, of feature b c] by simp
  qed
  from eq sh val show ?thesis by blast
qed

text \<open>The statement of C8 at a tensor with two channels, three points and two samples.\<close>

theorem random_sample_gather_max_witness:
  "is_shape4 1 2 3 1 [[[[1::int], [5], [3]], [[7], [2], [9]]]]
   \<and> is_shape3 1 2 2 [[[0, 1], [2, 2::int]]]
   \<and> list_all (list_all (list_all (\<lambda>i. 0 \<le> i \<and> i < int 3))) [[[0, 1], [2, 2::int]]]
   \<and> random_sample [[[[1::int], [5], [3]], [[7], [2], [9]]]] [[[0, 1], [2, 2]]]
        = Some [[[[5], [3]], [[7], [9]]]]
   \<and> (\<exists>out. random_sample [[[[1::int], [5], [3]], [[7], [2], [9]]]] [[[0, 1], [2, 2]]] = Some out
         \<and> is_shape4 1 2 2 1 out
         \<and> (\<forall>b<1. \<forall>c<2. \<forall>p<2.
               out ! b ! c ! p ! 0
                 = Max ((\<lambda>k. [[[[1::int], [5], [3]], [[7], [2], [9]]]] ! b ! c
                                 ! nat ([[[0, 1], [2, 2::int]]] ! b ! p ! k) ! 0) ` {..<2})))"
proof -
  have h1: "is_shape4 1 2 3 1 [[[[1::int], [5], [3]], [[7], [2], [9]]]]"
    by (simp add: is_shape4_def is_shape3_def is_shape2_def)
  have h2: "is_shape3 1 2 2 [[[0, 1], [2, 2::int]]]"
    by (simp add: is_shape3_def is_shape2_def)
  have h3: "list_all (list_all (list_all (\<lambda>i. 0 \<le> i \<and> i < int 3))) [[[0, 1], [2, 2::int]]]"
    by simp
  have h4: "random_sample [[[[1::int], [5], [3]], [[7], [2], [9]]]] [[[0, 1], [2, 2]]]
              = Some [[[[5], [3]], [[7], [9]]]]"
    by code_simp
  from random_sample_gather_max [OF h1 h2 _ _ _ _ h3] h1 h2 h3 h4 show ?thesis
    by simp
qed

section \<open>The label pyramid of \<open>RandLANet.construct\<close>\<close>


lemma entries3_iff:
  "x \<in> entries3 t \<longleftrightarrow> (\<exists>a \<in> set t. \<exists>r \<in> set a. x \<in> set r)"
  by (auto simp add: entries3_def flatten3_def)

lemma entries4_iff:
  "x \<in> entries4 t \<longleftrightarrow> (\<exists>a \<in> set t. \<exists>m \<in> set a. \<exists>r \<in> set m. x \<in> set r)"
  by (auto simp add: entries4_def flatten4_def)

lemma entries3_nth:
  "b < length t \<Longrightarrow> n < length (t ! b) \<Longrightarrow> c < length (t ! b ! n)
     \<Longrightarrow> t ! b ! n ! c \<in> entries3 t"
  unfolding entries3_iff by (meson nth_mem)

lemma entries4_nth:
  "b < length t \<Longrightarrow> c < length (t ! b) \<Longrightarrow> n < length (t ! b ! c)
     \<Longrightarrow> k < length (t ! b ! c ! n) \<Longrightarrow> t ! b ! c ! n ! k \<in> entries4 t"
  unfolding entries4_iff by (meson nth_mem)

lemma entries3_shape_nth:
  assumes "is_shape3 B N C t" "b < B" "n < N" "c < C"
  shows "t ! b ! n ! c \<in> entries3 t"
proof -
  have 1: "b < length t" using assms by (simp add: is_shape3_length)
  have 2: "n < length (t ! b)" using is_shape3_nth [OF assms(1,2)] assms(3) by (simp add: is_shape2_length)
  have 3: "c < length (t ! b ! n)" using is_shape2_nth [OF is_shape3_nth [OF assms(1,2)] assms(3)] assms(4) by simp
  show ?thesis by (rule entries3_nth [OF 1 2 3])
qed

lemma entries4_shape_nth:
  assumes "is_shape4 B C N K t" "b < B" "c < C" "n < N" "k < K"
  shows "t ! b ! c ! n ! k \<in> entries4 t"
proof -
  have 1: "b < length t" using assms by (simp add: is_shape4_length)
  have s3: "is_shape3 C N K (t ! b)" by (rule is_shape4_nth [OF assms(1,2)])
  have 2: "c < length (t ! b)" using s3 assms(3) by (simp add: is_shape3_length)
  have s2: "is_shape2 N K (t ! b ! c)" by (rule is_shape3_nth [OF s3 assms(3)])
  have 3: "n < length (t ! b ! c)" using s2 assms(4) by (simp add: is_shape2_length)
  have 4: "k < length (t ! b ! c ! n)" using is_shape2_nth [OF s2 assms(4)] assms(5) by simp
  show ?thesis by (rule entries4_nth [OF 1 2 3 4])
qed

lemma entries3_tabE:
  assumes "x \<in> entries3 (tab B (\<lambda>b. tab N (\<lambda>n. tab C (f b n))))"
  obtains b n c where "b < B" "n < N" "c < C" "x = f b n c"
  using assms unfolding entries3_iff tab_def by auto

lemma entries4_tabE:
  assumes "x \<in> entries4 (tab B (\<lambda>b. tab C (\<lambda>c. tab N (\<lambda>n. tab K (f b c n)))))"
  obtains b c n k where "b < B" "c < C" "n < N" "k < K" "x = f b c n k"
  using assms unfolding entries4_iff tab_def by auto

lemma is_shape3_tab: "is_shape3 B N C (tab B (\<lambda>b. tab N (\<lambda>n. tab C (f b n))))"
  by (simp add: is_shape3_def is_shape2_def list_all_length)

lemma is_shape4_tab:
  "is_shape4 B C N K (tab B (\<lambda>b. tab C (\<lambda>c. tab N (\<lambda>n. tab K (f b c n)))))"
  by (simp add: is_shape4_def is_shape3_def is_shape2_def list_all_length)

lemma Tile4_last:
  "Tile4 (Suc 0, Suc 0, Suc 0, K) (expand_dims3_last t) = map (map (map (replicate K))) t"
  by (simp add: Tile4_def expand_dims3_last_def rep_one rep_single comp_def)


lemma entries3_shapeE:
  assumes "x \<in> entries3 t" "is_shape3 B N C t"
  obtains b n c where "b < B" "n < N" "c < C" "x = t ! b ! n ! c"
proof -
  from assms(1) obtain a r where a: "a \<in> set t" and r: "r \<in> set a" and x: "x \<in> set r"
    unfolding entries3_iff by blast
  from a obtain b where b: "b < length t" "a = t ! b" by (metis in_set_conv_nth)
  from r obtain n where n: "n < length a" "r = a ! n" by (metis in_set_conv_nth)
  from x obtain c where c: "c < length r" "x = r ! c" by (metis in_set_conv_nth)
  have bB: "b < B" using b assms(2) by (simp add: is_shape3_length)
  have s2: "is_shape2 N C a" using is_shape3_nth [OF assms(2) bB] b by simp
  have nN: "n < N" using n s2 by (simp add: is_shape2_length)
  have cC: "c < C" using is_shape2_nth [OF s2 nN] c n by simp
  show ?thesis using that [OF bB nN cC] b n c by simp
qed

lemma entries4_shapeE:
  assumes "x \<in> entries4 t" "is_shape4 B C N K t"
  obtains b c n k where "b < B" "c < C" "n < N" "k < K" "x = t ! b ! c ! n ! k"
proof -
  from assms(1) obtain a m r where a: "a \<in> set t" and m: "m \<in> set a" and r: "r \<in> set m"
    and x: "x \<in> set r"
    unfolding entries4_iff by blast
  from a obtain b where b: "b < length t" "a = t ! b" by (metis in_set_conv_nth)
  from m obtain c where c: "c < length a" "m = a ! c" by (metis in_set_conv_nth)
  from r obtain n where n: "n < length m" "r = m ! n" by (metis in_set_conv_nth)
  from x obtain k where k: "k < length r" "x = r ! k" by (metis in_set_conv_nth)
  have bB: "b < B" using b assms(2) by (simp add: is_shape4_length)
  have s3: "is_shape3 C N K a" using is_shape4_nth [OF assms(2) bB] b by simp
  have cC: "c < C" using c s3 by (simp add: is_shape3_length)
  have s2: "is_shape2 N K m" using is_shape3_nth [OF s3 cC] c by simp
  have nN: "n < N" using n s2 by (simp add: is_shape2_length)
  have kK: "k < K" using is_shape2_nth [OF s2 nN] k n by simp
  show ?thesis using that [OF bB cC nN kK] b c n k by simp
qed

lemma dims_shape3:
  assumes "is_shape3 A B C t" "0 < A" "0 < B"
  shows "dim0 t = A" "dim1 t = B" "dim2 t = C"
  using assms by (simp_all add: dim0_def is_shape3_length dim1_shape3 dim2_shape3)

lemma dims_shape4:
  assumes "is_shape4 A B C D t" "0 < A" "0 < B" "0 < C"
  shows "dim0 t = A" "dim1 t = B" "dim2 t = C" "dim3 t = D"
  using assms by (simp_all add: dim0_def is_shape4_length dim1_shape4 dim2_shape4 dim3_shape4)

lemma transpose3_021_shape:
  assumes t: "is_shape3 A B C t" and pos: "0 < A" "0 < B"
  shows "is_shape3 A C B (transpose3_021 t)"
    and "entries3 (transpose3_021 t) \<subseteq> entries3 t"
proof -
  have eq: "transpose3_021 t = tab A (\<lambda>i0. tab C (\<lambda>i2. tab B (\<lambda>i1. t ! i0 ! i1 ! i2)))"
    by (simp add: transpose3_021_def dims_shape3 [OF t pos])
  show "is_shape3 A C B (transpose3_021 t)" unfolding eq by (rule is_shape3_tab)
  show "entries3 (transpose3_021 t) \<subseteq> entries3 t"
  proof
    fix x assume "x \<in> entries3 (transpose3_021 t)"
    then obtain a c b where "a < A" "c < C" "b < B" "x = t ! a ! b ! c"
      unfolding eq by (rule entries3_tabE)
    then show "x \<in> entries3 t" using entries3_shape_nth [OF t] by simp
  qed
qed

lemma transpose4_0231_shape:
  assumes t: "is_shape4 A B C D t" and pos: "0 < A" "0 < B" "0 < C"
  shows "is_shape4 A C D B (transpose4_0231 t)"
    and "entries4 (transpose4_0231 t) \<subseteq> entries4 t"
proof -
  have eq: "transpose4_0231 t
              = tab A (\<lambda>i0. tab C (\<lambda>i2. tab D (\<lambda>i3. tab B (\<lambda>i1. t ! i0 ! i1 ! i2 ! i3))))"
    by (simp add: transpose4_0231_def dims_shape4 [OF t pos])
  show "is_shape4 A C D B (transpose4_0231 t)" unfolding eq by (rule is_shape4_tab)
  show "entries4 (transpose4_0231 t) \<subseteq> entries4 t"
  proof
    fix x assume "x \<in> entries4 (transpose4_0231 t)"
    then obtain a c d b where "a < A" "c < C" "d < D" "b < B" "x = t ! a ! b ! c ! d"
      unfolding eq by (rule entries4_tabE)
    then show "x \<in> entries4 t" using entries4_shape_nth [OF t] by simp
  qed
qed

lemma transpose4_0312_shape:
  assumes t: "is_shape4 A B C D t" and pos: "0 < A" "0 < B" "0 < C"
  shows "is_shape4 A D B C (transpose4_0312 t)"
    and "entries4 (transpose4_0312 t) \<subseteq> entries4 t"
proof -
  have eq: "transpose4_0312 t
              = tab A (\<lambda>i0. tab D (\<lambda>i3. tab B (\<lambda>i1. tab C (\<lambda>i2. t ! i0 ! i1 ! i2 ! i3))))"
    by (simp add: transpose4_0312_def dims_shape4 [OF t pos])
  show "is_shape4 A D B C (transpose4_0312 t)" unfolding eq by (rule is_shape4_tab)
  show "entries4 (transpose4_0312 t) \<subseteq> entries4 t"
  proof
    fix x assume "x \<in> entries4 (transpose4_0312 t)"
    then obtain a d b c where "a < A" "d < D" "b < B" "c < C" "x = t ! a ! b ! c ! d"
      unfolding eq by (rule entries4_tabE)
    then show "x \<in> entries4 t" using entries4_shape_nth [OF t] by simp
  qed
qed

lemma expand_dims3_2_shape:
  assumes "is_shape3 A B C t"
  shows "is_shape4 A B 1 C (expand_dims3_2 t)"
    and "entries4 (expand_dims3_2 t) = entries3 t"
proof -
  show "is_shape4 A B 1 C (expand_dims3_2 t)"
    using assms
    by (auto simp add: expand_dims3_2_def is_shape4_def is_shape3_def is_shape2_def list_all_iff)
  show "entries4 (expand_dims3_2 t) = entries3 t"
    by (auto simp add: entries4_iff entries3_iff expand_dims3_2_def)
qed

lemma xyz_tile_shape:
  assumes "is_shape3 A B C t"
  shows "is_shape4 A B C K (Tile4 (1, 1, 1, K) (expand_dims3_last t))"
    and "entries4 (Tile4 (1, 1, 1, K) (expand_dims3_last t)) \<subseteq> entries3 t"
proof -
  have eq: "Tile4 (1, 1, 1, K) (expand_dims3_last t) = map (map (map (replicate K))) t"
    using Tile4_last [of K t] by simp
  show "is_shape4 A B C K (Tile4 (1, 1, 1, K) (expand_dims3_last t))"
    unfolding eq using assms
    by (auto simp add: is_shape4_def is_shape3_def is_shape2_def list_all_iff)
  show "entries4 (Tile4 (1, 1, 1, K) (expand_dims3_last t)) \<subseteq> entries3 t"
    unfolding eq by (auto simp add: entries4_iff entries3_iff)
qed

lemma extended_idx_shape:
  assumes "is_shape3 A B C t"
  shows "is_shape4 A d B C (Tile4 (1, d, 1, 1) (expand_dims3_1 t))"
proof -
  have eq: "Tile4 (1, d, 1, 1) (expand_dims3_1 t) = map (replicate d) t"
    using Tile4_channel [of d t] by simp
  show ?thesis unfolding eq using assms
    by (auto simp add: is_shape4_def is_shape3_def list_all_iff)
qed

lemma GatherD4_2_shape:
  assumes x: "is_shape4 B C N K x" and i: "is_shape4 B C N' K index"
    and pos: "0 < B" "0 < C" "0 < N'"
    and g: "GatherD4_2 x index = Some g"
  shows "is_shape4 B C N' K g" and "entries4 g \<subseteq> entries4 x"
proof -
  have di: "dim0 index = B" "dim1 index = C" "dim2 index = N'" "dim3 index = K"
    by (rule dims_shape4 [OF i pos])+
  have ok: "list_all (list_all (list_all (list_all (index_ok (dim2 x))))) index"
    using g by (simp add: GatherD4_2_def split: if_splits)
  have N: "0 < K \<Longrightarrow> 0 < N \<and> dim2 x = N"
  proof -
    assume K: "0 < K"
    have "index ! 0 ! 0 ! 0 ! 0 \<in> entries4 index"
      using entries4_shape_nth [OF i pos K] .
    then have "index_ok (dim2 x) (index ! 0 ! 0 ! 0 ! 0)"
      using ok unfolding entries4_iff by (auto simp add: list_all_iff)
    then have "0 < dim2 x" by (auto simp add: index_ok_def)
    then show ?thesis using x pos
      by (cases "N = 0") (auto simp add: dim2_shape4)
  qed
  have eq: "g = tab B (\<lambda>b. tab C (\<lambda>c. tab N' (\<lambda>n. tab K (\<lambda>k.
              x ! b ! c ! wrap_index (dim2 x) (index ! b ! c ! n ! k) ! k))))"
    using g by (simp add: GatherD4_2_def di split: if_splits)
  show "is_shape4 B C N' K g" unfolding eq by (rule is_shape4_tab)
  show "entries4 g \<subseteq> entries4 x"
  proof
    fix v assume "v \<in> entries4 g"
    then obtain b c n k where b: "b < B" and c: "c < C" and n: "n < N'" and k: "k < K"
      and v: "v = x ! b ! c ! wrap_index (dim2 x) (index ! b ! c ! n ! k) ! k"
      unfolding eq by (rule entries4_tabE)
    have "index ! b ! c ! n ! k \<in> entries4 index"
      by (rule entries4_shape_nth [OF i b c n k])
    then have "index_ok (dim2 x) (index ! b ! c ! n ! k)"
      using ok unfolding entries4_iff by (auto simp add: list_all_iff)
    then have "wrap_index (dim2 x) (index ! b ! c ! n ! k) < dim2 x"
      by (rule wrap_index_less)
    moreover have "dim2 x = N" using N k by simp
    ultimately show "v \<in> entries4 x"
      using entries4_shape_nth [OF x b c _ k] v by simp
  qed
qed

lemma gather_neighbour_any_shape:
  assumes pc: "is_shape3 B N 13 pc" and idx: "is_shape3 B N K neighbor_idx"
    and pos: "0 < B" "0 < N"
    and g: "gather_neighbour_any pc neighbor_idx = Some g"
  shows "is_shape4 B N K 13 g" and "entries4 g \<subseteq> entries3 pc"
proof -
  let ?ext = "Tile4 (1, 13, 1, 1) (expand_dims3_1 neighbor_idx)"
  let ?xyz = "Tile4 (1, 1, 1, K) (expand_dims3_last (transpose3_021 pc))"
  have K: "dim2 neighbor_idx = K" by (rule dims_shape3 [OF idx pos])
  from g obtain features where f: "GatherD4_2 ?xyz ?ext = Some features"
    and gf: "g = transpose4_0231 features"
    by (auto simp add: gather_neighbour_any_def K Let_def bind_eq_Some_conv)
  have tp: "is_shape3 B 13 N (transpose3_021 pc)" by (rule transpose3_021_shape [OF pc pos])
  have xs: "is_shape4 B 13 N K ?xyz" by (rule xyz_tile_shape [OF tp])
  have es: "is_shape4 B 13 N K ?ext" by (rule extended_idx_shape [OF idx])
  have fs: "is_shape4 B 13 N K features"
    by (rule GatherD4_2_shape [OF xs es _ _ _ f]) (use pos in simp_all)
  have fe: "entries4 features \<subseteq> entries4 ?xyz"
    by (rule GatherD4_2_shape [OF xs es _ _ _ f]) (use pos in simp_all)
  show "is_shape4 B N K 13 g" unfolding gf
    by (rule transpose4_0231_shape [OF fs]) (use pos in simp_all)
  have "entries4 g \<subseteq> entries4 features" unfolding gf
    by (rule transpose4_0231_shape [OF fs]) (use pos in simp_all)
  also note fe
  also have "entries4 ?xyz \<subseteq> entries3 (transpose3_021 pc)" by (rule xyz_tile_shape [OF tp])
  also have "\<dots> \<subseteq> entries3 pc" by (rule transpose3_021_shape [OF pc pos])
  finally show "entries4 g \<subseteq> entries3 pc" .
qed


lemma max_list_mem: "xs \<noteq> [] \<Longrightarrow> max_list xs \<in> set xs"
  using max_list_Max [of xs] Max_in [of "set xs"] by simp

lemma ReduceMax4_2_shape:
  fixes g :: "'a::linorder tensor4"
  assumes g: "is_shape4 B N K C g" and pos: "0 < K"
  shows "\<exists>t. ReduceMax4_2 g = Some t \<and> is_shape3 B N C t \<and> entries3 t \<subseteq> entries4 g"
proof -
  let ?t = "map (map (\<lambda>m. tab (dim1 m) (\<lambda>c. max_list (map (\<lambda>r. r ! c) m)))) g"
  have m: "\<And>a m. a \<in> set g \<Longrightarrow> m \<in> set a \<Longrightarrow> is_shape2 K C m"
    using is_shape3_set [OF is_shape4_set [OF g]] by blast
  have ne: "\<And>a m. a \<in> set g \<Longrightarrow> m \<in> set a \<Longrightarrow> m \<noteq> []"
    using m pos by (fastforce simp add: is_shape2_def)
  have dm: "\<And>a m. a \<in> set g \<Longrightarrow> m \<in> set a \<Longrightarrow> dim1 m = C"
    using m pos dim1_shape2 by blast
  have eq: "ReduceMax4_2 g = Some ?t"
    using ne by (simp add: ReduceMax4_2_def list_all_iff)
  have sh: "is_shape3 B N C ?t"
    using g dm by (auto simp add: is_shape4_def is_shape3_def is_shape2_def list_all_iff)
  have en: "entries3 ?t \<subseteq> entries4 g"
  proof
    fix x assume "x \<in> entries3 ?t"
    then obtain a m where a: "a \<in> set g" and mm: "m \<in> set a"
      and x: "x \<in> set (tab (dim1 m) (\<lambda>c. max_list (map (\<lambda>r. r ! c) m)))"
      unfolding entries3_iff by auto
    from x obtain c where c: "c < C" and xc: "x = max_list (map (\<lambda>r. r ! c) m)"
      using dm [OF a mm] by (auto simp add: tab_def)
    have "map (\<lambda>r. r ! c) m \<noteq> []" using ne [OF a mm] by simp
    from max_list_mem [OF this] xc obtain r where r: "r \<in> set m" and xr: "x = r ! c" by auto
    have "length r = C" using is_shape2_set [OF m [OF a mm] r] .
    with c xr have "x \<in> set r" by simp
    with a mm r show "x \<in> entries4 g" unfolding entries4_iff by blast
  qed
  from eq sh en show ?thesis by blast
qed

lemma Squeeze4_2_shape:
  assumes "is_shape4 A B (Suc 0) C t"
  shows "\<exists>u. Squeeze4_2 t = Some u \<and> is_shape3 A B C u \<and> entries3 u \<subseteq> entries4 t"
proof -
  have one: "\<And>a m. a \<in> set t \<Longrightarrow> m \<in> set a \<Longrightarrow> is_shape2 (Suc 0) C m"
    using is_shape3_set [OF is_shape4_set [OF assms]] by blast
  have l: "\<And>a m. a \<in> set t \<Longrightarrow> m \<in> set a \<Longrightarrow> length m = 1"
    using one by (simp add: is_shape2_def)
  have hdm: "\<And>a m. a \<in> set t \<Longrightarrow> m \<in> set a \<Longrightarrow> hd m \<in> set m \<and> length (hd m) = C"
  proof -
    fix a m assume a: "a \<in> set t" and m: "m \<in> set a"
    from l [OF a m] have "m \<noteq> []" by auto
    then have "hd m \<in> set m" by simp
    then show "hd m \<in> set m \<and> length (hd m) = C" using is_shape2_set [OF one [OF a m]] by simp
  qed
  have eq: "Squeeze4_2 t = Some (map (map hd) t)"
    using l by (simp add: Squeeze4_2_def list_all_iff)
  have sh: "is_shape3 A B C (map (map hd) t)"
    using assms hdm by (auto simp add: is_shape4_def is_shape3_def is_shape2_def list_all_iff)
  have en: "entries3 (map (map hd) t) \<subseteq> entries4 t"
    using hdm by (fastforce simp add: entries3_iff entries4_iff)
  from eq sh en show ?thesis by blast
qed

lemma random_sample_index_ok:
  fixes feature :: "'a::linorder tensor4"
  assumes f: "is_shape4 B d N (Suc 0) feature"
    and p: "is_shape3 B N' K pool_idx"
    and pos: "0 < B" "0 < d" "0 < N'" "0 < K"
    and some: "random_sample feature pool_idx = Some out"
  shows "list_all (list_all (list_all (index_ok N))) pool_idx"
proof -
  let ?sq = "map (map (map hd)) feature"
  let ?idx2 = "map (map concat) (map (replicate d) pool_idx)"
  have d0: "dim0 feature = B" "dim1 feature = d" "dim1 pool_idx = N'" "dim2 feature = N"
    using f p pos by (simp_all add: dim0_def is_shape4_length dim1_shape4 dim1_shape3 dim2_shape4)
  have t: "is_shape4 B d N' K (map (replicate d) pool_idx)"
    using p by (auto simp add: is_shape4_def is_shape3_def list_all_iff)
  have s1: "reshape3_infer B d (flatten4 (map (replicate d) pool_idx)) = Some ?idx2"
    by (rule reshape3_flatten4 [OF t pos(1,2)])
  have s2: "squeeze4_last feature = Some ?sq"
    by (rule squeeze4_last_shape [OF f])
  have sq: "is_shape3 B d N ?sq" by (rule is_shape3_squeezed [OF f])
  have dsq: "dim2 ?sq = N" using sq pos by (simp add: dim2_shape3)
  from some have "GatherD3_last ?sq ?idx2 \<noteq> None"
    unfolding random_sample_def Let_def d0 using s1 s2
    by (auto simp add: Tile4_channel bind_eq_Some_conv)
  then have "list_all (list_all (list_all (index_ok N))) ?idx2"
    by (simp add: GatherD3_last_def dsq split: if_splits)
  then show ?thesis using pos(2) by (auto simp add: list_all_iff)
qed

lemma random_sample_shape:
  fixes feature :: "'a::linorder tensor4"
  assumes f: "is_shape4 B d N (Suc 0) feature"
    and p: "is_shape3 B N' K pool_idx"
    and pos: "0 < B" "0 < d" "0 < N'" "0 < K"
    and some: "random_sample feature pool_idx = Some out"
  shows "is_shape4 B d N' (Suc 0) out" and "entries4 out \<subseteq> entries4 feature"
proof -
  have ok: "list_all (list_all (list_all (index_ok N))) pool_idx"
    by (rule random_sample_index_ok [OF f p pos some])
  have out: "out = tab B (\<lambda>b. tab d (\<lambda>c. map (\<lambda>row. [pooled feature b c row]) (pool_idx ! b)))"
    using random_sample_eq [OF f p pos ok] some by simp
  have lenp: "\<And>b. b < B \<Longrightarrow> length (pool_idx ! b) = N'"
    by (rule is_shape2_length [OF is_shape3_nth [OF p]])
  show "is_shape4 B d N' (Suc 0) out"
    unfolding out using lenp
    by (simp add: is_shape4_def is_shape3_def is_shape2_def list_all_length)
  have dN: "dim2 feature = N" using f pos by (simp add: dim2_shape4)
  show "entries4 out \<subseteq> entries4 feature"
  proof
    fix x assume "x \<in> entries4 out"
    then obtain b c row where b: "b < B" and c: "c < d" and row: "row \<in> set (pool_idx ! b)"
      and x: "x = pooled feature b c row"
      unfolding out entries4_iff by (auto simp add: tab_def)
    have "length row = K" using is_shape2_set [OF is_shape3_nth [OF p b] row] .
    with pos have ne: "map (\<lambda>i. feature ! b ! c ! wrap_index N i ! 0) row \<noteq> []" by auto
    from max_list_mem [OF ne] x obtain i where i: "i \<in> set row"
      and xi: "x = feature ! b ! c ! wrap_index N i ! 0"
      by (auto simp add: pooled_def dN)
    have "pool_idx ! b \<in> set pool_idx" using b is_shape3_length [OF p] by simp
    with ok row i have "index_ok N i" by (auto simp add: list_all_iff)
    then have "wrap_index N i < N" by (rule wrap_index_less)
    from entries4_shape_nth [OF f b c this] xi show "x \<in> entries4 feature" by simp
  qed
qed

lemma entries4_map: "entries4 (map (map (map (map f))) t) = f ` entries4 t"
proof -
  have "flatten4 (map (map (map (map f))) t) = map f (flatten4 t)"
    by (simp add: flatten4_def map_concat)
  then show ?thesis by (simp add: entries4_def)
qed

lemma gather_neighbour_shape:
  assumes pc: "label_is_shape B N 13 pc" and idx: "is_shape3 B N K neighbor_idx"
    and pos: "0 < B" "0 < N"
    and g: "gather_neighbour pc neighbor_idx = Some g"
  shows "is_shape4 B N K 13 g" and "entries4 g \<subseteq> label_entries pc"
proof -
  have "is_shape4 B N K 13 g \<and> entries4 g \<subseteq> label_entries pc"
  proof (cases pc)
    case (Int32 t)
    with g obtain g' where g': "gather_neighbour_any t neighbor_idx = Some g'"
      and gg: "g = map (map (map (map real_of_int))) g'"
      by (auto simp add: gather_neighbour_def)
    have t: "is_shape3 B N 13 t" using pc Int32 by simp
    have s: "is_shape4 B N K 13 g'" by (rule gather_neighbour_any_shape [OF t idx pos g'])
    have e: "entries4 g' \<subseteq> entries3 t" by (rule gather_neighbour_any_shape [OF t idx pos g'])
    have "is_shape4 B N K 13 g" unfolding gg using s
      by (auto simp add: is_shape4_def is_shape3_def is_shape2_def list_all_iff)
    moreover have "entries4 g = real_of_int ` entries4 g'"
      unfolding gg by (rule entries4_map)
    ultimately show ?thesis using e Int32 by auto
  next
    case (Float32 t)
    with g have g': "gather_neighbour_any t neighbor_idx = Some g"
      by (simp add: gather_neighbour_def)
    have t: "is_shape3 B N 13 t" using pc Float32 by simp
    from gather_neighbour_any_shape [OF t idx pos g'] Float32 show ?thesis by simp
  qed
  then show "is_shape4 B N K 13 g" and "entries4 g \<subseteq> label_entries pc" by simp_all
qed

lemma label_sample_shape:
  assumes l: "label_is_shape B N 13 l" and idx: "is_shape3 B N K neighbor_idx_i"
    and sub: "is_shape3 B N' M sub_idx_i"
    and pos: "0 < B" "0 < N" "0 < K" "0 < N'" "0 < M"
    and some: "label_sample l neighbor_idx_i sub_idx_i = Some out"
  shows "is_shape3 B N' 13 out" and "entries3 out \<subseteq> label_entries l"
proof -
  from some obtain g1 t1 g2 t2 sampled where
    g1: "gather_neighbour l neighbor_idx_i = Some g1"
    and t1: "ReduceMax4_2 g1 = Some t1"
    and g2: "gather_neighbour (Float32 t1) neighbor_idx_i = Some g2"
    and t2: "ReduceMax4_2 g2 = Some t2"
    and rs: "random_sample (transpose4_0312 (expand_dims3_2 t2)) sub_idx_i = Some sampled"
    and sq: "Squeeze4_2 (transpose4_0231 sampled) = Some out"
    by (auto simp add: label_sample_def bind_eq_Some_conv Let_def)
  have g1s: "is_shape4 B N K 13 g1" and g1e: "entries4 g1 \<subseteq> label_entries l"
    by (rule gather_neighbour_shape [OF l idx pos(1,2) g1])+
  from ReduceMax4_2_shape [OF g1s pos(3)] t1
  have t1s: "is_shape3 B N 13 t1" and t1e: "entries3 t1 \<subseteq> entries4 g1" by simp_all
  have t1l: "label_is_shape B N 13 (Float32 t1)" using t1s by simp
  have g2s: "is_shape4 B N K 13 g2" and g2e: "entries4 g2 \<subseteq> label_entries (Float32 t1)"
    by (rule gather_neighbour_shape [OF t1l idx pos(1,2) g2])+
  from ReduceMax4_2_shape [OF g2s pos(3)] t2
  have t2s: "is_shape3 B N 13 t2" and t2e: "entries3 t2 \<subseteq> entries4 g2" by simp_all
  have e1: "is_shape4 B N 1 13 (expand_dims3_2 t2)"
    and e1e: "entries4 (expand_dims3_2 t2) = entries3 t2"
    by (rule expand_dims3_2_shape [OF t2s])+
  have e2: "is_shape4 B 13 N 1 (transpose4_0312 (expand_dims3_2 t2))"
    and e2e: "entries4 (transpose4_0312 (expand_dims3_2 t2)) \<subseteq> entries4 (expand_dims3_2 t2)"
    by (rule transpose4_0312_shape [OF e1]; use pos in simp)+
  have e2': "is_shape4 B 13 N (Suc 0) (transpose4_0312 (expand_dims3_2 t2))" using e2 by simp
  have ss: "is_shape4 B 13 N' (Suc 0) sampled"
    and se: "entries4 sampled \<subseteq> entries4 (transpose4_0312 (expand_dims3_2 t2))"
    by (rule random_sample_shape [OF e2' sub _ _ _ _ rs]; use pos in simp)+
  have ts: "is_shape4 B N' (Suc 0) 13 (transpose4_0231 sampled)"
    and te: "entries4 (transpose4_0231 sampled) \<subseteq> entries4 sampled"
    by (rule transpose4_0231_shape [OF ss]; use pos in simp)+
  from Squeeze4_2_shape [OF ts] sq
  have os: "is_shape3 B N' 13 out" and oe: "entries3 out \<subseteq> entries4 (transpose4_0231 sampled)"
    by simp_all
  show "is_shape3 B N' 13 out" by (rule os)
  show "entries3 out \<subseteq> label_entries l"
    using oe te se e2e e1e t2e g2e t1e g1e by auto
qed


lemma for_loop_upt_invariant:
  assumes "for_loop body [a..<b] s = Some s'" and "I a s"
    and "\<And>i s s'. a \<le> i \<Longrightarrow> i < b \<Longrightarrow> I i s \<Longrightarrow> body i s = Some s' \<Longrightarrow> I (Suc i) s'"
    and "a \<le> b"
  shows "I b s'"
  using assms
proof (induction "b - a" arbitrary: a s)
  case 0
  then show ?case by simp
next
  case (Suc n)
  then have lt: "a < b" by simp
  then have upt: "[a..<b] = a # [Suc a..<b]" by (simp add: upt_conv_Cons)
  from Suc.prems(1) obtain s1 where b1: "body a s = Some s1"
    and rest: "for_loop body [Suc a..<b] s1 = Some s'"
    unfolding upt by (auto split: option.splits)
  have i1: "I (Suc a) s1" using Suc.prems(3) [OF _ lt Suc.prems(2) b1] by simp
  have n: "n = b - Suc a" using Suc.hyps(2) by simp
  show ?case
    by (rule Suc.hyps(1) [OF n rest i1]) (use Suc.prems(3) lt in auto)
qed

lemma py_get_nat: "py_get xs (int i) = Some x \<longleftrightarrow> i < length xs \<and> x = xs ! i"
  by (auto simp add: py_get_def)

lemma OneHot_shape:
  assumes "is_shape2 B N labels"
  shows "is_shape3 B N 13 (cast_int32 (OneHot 13 labels))"
    and "real_of_int ` entries3 (cast_int32 (OneHot 13 labels)) \<subseteq> {0, 1}"
proof -
  show "is_shape3 B N 13 (cast_int32 (OneHot 13 labels))"
    using assms
    by (auto simp add: cast_int32_def OneHot_def is_shape3_def is_shape2_def list_all_iff)
  show "real_of_int ` entries3 (cast_int32 (OneHot 13 labels)) \<subseteq> {0, 1}"
    by (auto simp add: cast_int32_def OneHot_def entries3_iff split: if_splits)
qed

lemma encoder_step_labels_inv:
  assumes B: "0 < B" and N: "\<And>i. i \<le> 5 \<Longrightarrow> 0 < N i"
    and K: "\<And>i. i < 5 \<Longrightarrow> 0 < K i" and M: "\<And>i. i < 5 \<Longrightarrow> 0 < M i"
    and nb: "\<And>i. i < 5 \<Longrightarrow> is_shape3 B (N i) (K i) (neighbor_idx ! i)"
    and sb: "\<And>i. i < 5 \<Longrightarrow> is_shape3 B (N (Suc i)) (M i) (sub_idx ! i)"
    and i: "i < 5"
    and inv: "labels_inv B N first neighbor_idx sub_idx i st"
    and step: "encoder_step net xyz neighbor_idx sub_idx i st = Some st'"
  shows "labels_inv B N first neighbor_idx sub_idx (Suc i) st'"
proof -
  let ?ml = "enc_multihot_labels st"
  from step obtain neighbor_idx_i sub_idx_i multihot_label_i tmp where
    ni: "py_get neighbor_idx (int i) = Some neighbor_idx_i"
    and si: "py_get sub_idx (int i) = Some sub_idx_i"
    and mi: "py_get ?ml (int i) = Some multihot_label_i"
    and ls: "label_sample multihot_label_i neighbor_idx_i sub_idx_i = Some tmp"
    and ml': "enc_multihot_labels st' = ?ml @ [Float32 tmp]"
    by (auto simp add: encoder_step_def bind_eq_Some_conv Let_def)
  from ni si mi have eqs: "neighbor_idx_i = neighbor_idx ! i" "sub_idx_i = sub_idx ! i"
    "multihot_label_i = ?ml ! i"
    by (simp_all add: py_get_nat)
  from inv have len: "length ?ml = Suc i" and first: "?ml ! 0 = first"
    and old: "\<And>k. k \<le> i \<Longrightarrow> label_is_shape B (N k) 13 (?ml ! k) \<and> label_entries (?ml ! k) \<subseteq> {0, 1}"
    and oldd: "\<And>k. k < i \<Longrightarrow> \<exists>t. ?ml ! Suc k = Float32 t
                 \<and> label_sample (?ml ! k) (neighbor_idx ! k) (sub_idx ! k) = Some t"
    by (simp_all add: labels_inv_def)
  have l: "label_is_shape B (N i) 13 multihot_label_i" using old [of i] eqs by simp
  have le: "label_entries multihot_label_i \<subseteq> {0, 1}" using old [of i] eqs by simp
  have ts: "is_shape3 B (N (Suc i)) 13 tmp"
    by (rule label_sample_shape [OF l nb [OF i, folded eqs] sb [OF i, folded eqs] _ _ _ _ _ ls])
       (use B N [of i] N [of "Suc i"] K [OF i] M [OF i] i in simp_all)
  have te: "entries3 tmp \<subseteq> label_entries multihot_label_i"
    by (rule label_sample_shape [OF l nb [OF i, folded eqs] sb [OF i, folded eqs] _ _ _ _ _ ls])
       (use B N [of i] N [of "Suc i"] K [OF i] M [OF i] i in simp_all)
  have new: "\<And>k. k \<le> Suc i \<Longrightarrow> label_is_shape B (N k) 13 ((?ml @ [Float32 tmp]) ! k)
                 \<and> label_entries ((?ml @ [Float32 tmp]) ! k) \<subseteq> {0, 1}"
  proof -
    fix k assume k: "k \<le> Suc i"
    show "label_is_shape B (N k) 13 ((?ml @ [Float32 tmp]) ! k)
            \<and> label_entries ((?ml @ [Float32 tmp]) ! k) \<subseteq> {0, 1}"
    proof (cases "k = Suc i")
      case True
      then show ?thesis using ts te le len by (auto simp add: nth_append)
    next
      case False
      with k have "k \<le> i" by simp
      then show ?thesis using old [of k] len by (simp add: nth_append)
    qed
  qed
  have newd: "\<And>k. k < Suc i \<Longrightarrow> \<exists>t. (?ml @ [Float32 tmp]) ! Suc k = Float32 t
                 \<and> label_sample ((?ml @ [Float32 tmp]) ! k) (neighbor_idx ! k) (sub_idx ! k)
                     = Some t"
  proof -
    fix k assume k: "k < Suc i"
    show "\<exists>t. (?ml @ [Float32 tmp]) ! Suc k = Float32 t
            \<and> label_sample ((?ml @ [Float32 tmp]) ! k) (neighbor_idx ! k) (sub_idx ! k) = Some t"
    proof (cases "k = i")
      case True
      then show ?thesis using ls eqs len by (simp add: nth_append)
    next
      case False
      with k have "k < i" by simp
      then show ?thesis using oldd [of k] len by (simp add: nth_append)
    qed
  qed
  have l': "length (?ml @ [Float32 tmp]) = Suc (Suc i)" using len by simp
  have f': "(?ml @ [Float32 tmp]) ! 0 = first" using len first by (simp add: nth_append)
  show ?thesis
    unfolding labels_inv_def ml'
    by (intro conjI allI impI) (use l' f' new newd in blast)+
qed

text \<open>
  Claim C9. Let the labels have shape \<open>(B, N 0)\<close>, and for each level \<open>i < 5\<close>
  let \<open>neighbor_idx[i]\<close> have shape \<open>(B, N i, K i)\<close> and \<open>sub_idx[i]\<close> have
  shape \<open>(B, N (i + 1), M i)\<close>, all axes non-empty. Whenever
  \<open>RandLANet.construct\<close> returns, the list \<open>multihot_labels\<close> it returns has
  exactly 6 elements, the first is the depth-13 one-hot encoding of the labels cast to
  \<open>int32\<close>, element \<open>i + 1\<close> is what the gathering of neighbours, \<open>P.ReduceMax\<close>
  and \<open>random_sample\<close> (the function \<open>label_sample\<close>) return on element \<open>i\<close>, and
  every entry of every tensor of the list is 0 or 1.
\<close>

theorem construct_multihot_labels:
  assumes B: "0 < B" and N: "\<And>i. i \<le> 5 \<Longrightarrow> 0 < N i"
    and K: "\<And>i. i < 5 \<Longrightarrow> 0 < K i" and M: "\<And>i. i < 5 \<Longrightarrow> 0 < M i"
    and lb: "is_shape2 B (N 0) labels"
    and nb: "\<And>i. i < 5 \<Longrightarrow> is_shape3 B (N i) (K i) (neighbor_idx ! i)"
    and sb: "\<And>i. i < 5 \<Longrightarrow> is_shape3 B (N (Suc i)) (M i) (sub_idx ! i)"
    and res: "construct net xyz feature neighbor_idx sub_idx interp_idx labels
                = Some (scores, multihot_labels, supervised_features, se_features_list)"
  shows "length multihot_labels = 6
         \<and> multihot_labels ! 0 = Int32 (cast_int32 (OneHot 13 labels))
         \<and> (\<forall>i<5. \<exists>t. multihot_labels ! Suc i = Float32 t
                \<and> label_sample (multihot_labels ! i) (neighbor_idx ! i) (sub_idx ! i) = Some t)
         \<and> (\<forall>t \<in> set multihot_labels. label_entries t \<subseteq> {0, 1})"
proof -
  let ?first = "Int32 (cast_int32 (OneHot 13 labels))"
  from res obtain f0 enc where
    loop: "for_loop (encoder_step net xyz neighbor_idx sub_idx) [0..<5]
             \<lparr> enc_feature = f0, enc_multihot_labels = [?first], enc_f_stack = [] \<rparr> = Some enc"
    and ml: "multihot_labels = enc_multihot_labels enc"
    by (auto simp add: construct_def bind_eq_Some_conv Let_def)
  have init: "labels_inv B N ?first neighbor_idx sub_idx 0
                \<lparr> enc_feature = f0, enc_multihot_labels = [?first], enc_f_stack = [] \<rparr>"
    using OneHot_shape [OF lb] by (simp add: labels_inv_def)
  have "labels_inv B N ?first neighbor_idx sub_idx 5 enc"
    by (rule for_loop_upt_invariant
          [of "encoder_step net xyz neighbor_idx sub_idx" 0 5 _ enc
              "labels_inv B N ?first neighbor_idx sub_idx",
           OF loop init])
       (use encoder_step_labels_inv [OF B N K M nb sb] in auto)
  then have len: "length multihot_labels = 6" and first: "multihot_labels ! 0 = ?first"
    and all: "\<And>k. k \<le> 5 \<Longrightarrow> label_entries (multihot_labels ! k) \<subseteq> {0, 1}"
    and der: "\<forall>i<5. \<exists>t. multihot_labels ! Suc i = Float32 t
                \<and> label_sample (multihot_labels ! i) (neighbor_idx ! i) (sub_idx ! i) = Some t"
    by (simp_all add: labels_inv_def ml)
  have "\<forall>t \<in> set multihot_labels. label_entries t \<subseteq> {0, 1}"
  proof
    fix t assume "t \<in> set multihot_labels"
    then obtain k where "k < 6" "t = multihot_labels ! k"
      using len by (metis in_set_conv_nth)
    then show "label_entries t \<subseteq> {0, 1}" using all [of k] by simp
  qed
  with len first der show ?thesis by simp
qed


text \<open>The result of \<open>construct\<close> on the small network and input.\<close>

lemma ex_construct:
  "construct ex_layers ex_xyz [[[1], [2], [3]]] ex_neighbor_idx ex_sub_idx ex_interp_idx [[2, 1, 0]]
     = Some ([[[1, 2, 3], [1, 2, 3], [1, 2, 3]]],
   [Int32
     [[[0, 0, 1, 0, 0, 0, 0, 0, 0, 0, 0, 0, 0],
       [0, 1, 0, 0, 0, 0, 0, 0, 0, 0, 0, 0, 0],
       [1, 0, 0, 0, 0, 0, 0, 0, 0, 0, 0, 0, 0]]],
    Float32 [[[0, 1, 1, 0, 0, 0, 0, 0, 0, 0, 0, 0, 0]]],
    Float32 [[[0, 1, 1, 0, 0, 0, 0, 0, 0, 0, 0, 0, 0]]],
    Float32 [[[0, 1, 1, 0, 0, 0, 0, 0, 0, 0, 0, 0, 0]]],
    Float32 [[[0, 1, 1, 0, 0, 0, 0, 0, 0, 0, 0, 0, 0]]],
    Float32 [[[0, 1, 1, 0, 0, 0, 0, 0, 0, 0, 0, 0, 0]]]],
   [[[[2, 2, 2, 2, 2, 2, 2, 2, 2, 2, 2, 2, 2]]],
    [[[2, 2, 2, 2, 2, 2, 2, 2, 2, 2, 2, 2, 2]]],
    [[[2, 2, 2, 2, 2, 2, 2, 2, 2, 2, 2, 2, 2]]],
    [[[2, 2, 2, 2, 2, 2, 2, 2, 2, 2, 2, 2, 2]]],
    [[[2, 2, 2, 2, 2, 2, 2, 2, 2, 2, 2, 2, 2]]],
    [[[1, 1, 1, 1, 1, 1, 1, 1, 1, 1, 1, 1, 1],
      [2, 2, 2, 2, 2, 2, 2, 2, 2, 2, 2, 2, 2],
      [3, 3, 3, 3, 3, 3, 3, 3, 3, 3, 3, 3, 3]]]],
   [[[[[2]], [[2]]]], [[[[2]], [[2]]]], [[[[2]], [[2]]]],
    [[[[2]], [[2]]]]])"
  by code_simp


lemma less_5_cases:
  assumes "i < (5::nat)"
  obtains "i = 0" | "i = 1" | "i = 2" | "i = 3" | "i = 4"
  using assms by linarith

text \<open>
  The statement of C9 on the small network, where \<open>construct\<close> returns.
\<close>

theorem construct_multihot_labels_witness:
  "(\<exists>scores ml sf se.
      construct ex_layers ex_xyz [[[1], [2], [3]]] ex_neighbor_idx ex_sub_idx ex_interp_idx
        [[2, 1, 0]] = Some (scores, ml, sf, se)
      \<and> length ml = 6
      \<and> ml ! 0 = Int32 (cast_int32 (OneHot 13 [[2, 1, 0]]))
      \<and> (\<forall>i<5. \<exists>t. ml ! Suc i = Float32 t
             \<and> label_sample (ml ! i) (ex_neighbor_idx ! i) (ex_sub_idx ! i) = Some t)
      \<and> (\<forall>t \<in> set ml. label_entries t \<subseteq> {0, 1}))"
proof -
  let ?N = "\<lambda>i::nat. if i = 0 then 3 else (1::nat)"
  let ?K = "\<lambda>i::nat. if i = 0 then 2 else (1::nat)"
  have B: "0 < (1::nat)" by simp
  have N: "\<And>i. i \<le> 5 \<Longrightarrow> 0 < ?N i" by simp
  have K: "\<And>i. i < 5 \<Longrightarrow> 0 < ?K i" by simp
  have lb: "is_shape2 1 (?N 0) [[2, 1, 0::int]]" by (simp add: is_shape2_def)
  have nb: "\<And>i. i < 5 \<Longrightarrow> is_shape3 1 (?N i) (?K i) (ex_neighbor_idx ! i)"
  proof -
    fix i :: nat assume "i < 5"
    then show "is_shape3 1 (?N i) (?K i) (ex_neighbor_idx ! i)"
      by (cases rule: less_5_cases)
         (simp_all add: ex_neighbor_idx_def is_shape3_def is_shape2_def)
  qed
  have sb: "\<And>i. i < 5 \<Longrightarrow> is_shape3 1 (?N (Suc i)) (?K i) (ex_sub_idx ! i)"
  proof -
    fix i :: nat assume "i < 5"
    then show "is_shape3 1 (?N (Suc i)) (?K i) (ex_sub_idx ! i)"
      by (cases rule: less_5_cases)
         (simp_all add: ex_sub_idx_def is_shape3_def is_shape2_def)
  qed
  note res = ex_construct
  from construct_multihot_labels [of 1 ?N ?K ?K, OF B N K K lb nb sb res] res
  show ?thesis by blast
qed

section \<open>The hierarchical loss and the self-enhancement loss\<close>


lemma py_get_0: "0 < length xs \<Longrightarrow> py_get xs 0 = Some (xs ! 0)"
  by (simp add: py_get_def)

lemma py_get_numeral:
  "numeral k < length xs \<Longrightarrow> py_get xs (numeral k) = Some (xs ! numeral k)"
  by (simp add: py_get_def)

lemma py_get_1: "1 < length xs \<Longrightarrow> py_get xs 1 = Some (xs ! 1)"
  by (simp add: py_get_def)

lemma sum_list_concat_map:
  fixes xss :: "real list list"
  shows "sum_list (concat xss) = sum_list (map sum_list xss)"
  by (induction xss) simp_all

lemma sum_list_rect:
  fixes xss :: "real list list"
  assumes "is_shape2 N C xss"
  shows "sum_list (concat xss) = (\<Sum>n<N. \<Sum>c<C. xss ! n ! c)"
proof -
  have "sum_list (concat xss) = sum_list (map sum_list xss)" by (simp add: sum_list_concat_map)
  also have "\<dots> = (\<Sum>n<N. sum_list (xss ! n))"
    using is_shape2_length [OF assms] by (simp add: sum_list_sum_nth atLeast0LessThan)
  also have "\<dots> = (\<Sum>n<N. \<Sum>c<C. xss ! n ! c)"
    using is_shape2_nth [OF assms] by (simp add: sum_list_sum_nth atLeast0LessThan)
  finally show ?thesis .
qed

lemma sum_list_flatten3:
  fixes t :: "real tensor3"
  assumes "is_shape3 B N C t"
  shows "sum_list (flatten3 t) = (\<Sum>b<B. \<Sum>n<N. \<Sum>c<C. t ! b ! n ! c)"
proof -
  have "sum_list (flatten3 t) = sum_list (map (\<lambda>a. sum_list (concat a)) t)"
    by (simp add: flatten3_map sum_list_concat_map comp_def)
  also have "\<dots> = (\<Sum>b<B. sum_list (concat (t ! b)))"
    using is_shape3_length [OF assms] by (simp add: sum_list_sum_nth atLeast0LessThan)
  also have "\<dots> = (\<Sum>b<B. \<Sum>n<N. \<Sum>c<C. t ! b ! n ! c)"
    using sum_list_rect [OF is_shape3_nth [OF assms]] by simp
  finally show ?thesis .
qed

lemma same_shape3_is_shape:
  assumes "is_shape3 B N C a" "is_shape3 B N C b"
  shows "same_shape3 a b"
  unfolding same_shape3_def list_all2_conv_all_nth
  using assms by (auto simp add: is_shape3_def is_shape2_def list_all_length)

lemma map2_shape3:
  assumes a: "is_shape3 B N C a" and b: "is_shape3 B N C b"
  shows "map2 (map2 (map2 f)) a b = tab B (\<lambda>i. tab N (\<lambda>j. tab C (\<lambda>k. f (a ! i ! j ! k) (b ! i ! j ! k))))"
proof (rule nth_equalityI)
  show "length (map2 (map2 (map2 f)) a b) = length (tab B (\<lambda>i. tab N (\<lambda>j. tab C (\<lambda>k. f (a ! i ! j ! k) (b ! i ! j ! k)))))"
    using is_shape3_length [OF a] is_shape3_length [OF b] by simp
next
  fix i assume "i < length (map2 (map2 (map2 f)) a b)"
  then have i: "i < B" using is_shape3_length [OF a] by simp
  have ai: "is_shape2 N C (a ! i)" and bi: "is_shape2 N C (b ! i)"
    using is_shape3_nth [OF a i] is_shape3_nth [OF b i] by simp_all
  have "map2 (map2 f) (a ! i) (b ! i) = tab N (\<lambda>j. tab C (\<lambda>k. f (a ! i ! j ! k) (b ! i ! j ! k)))"
  proof (rule nth_equalityI)
    show "length (map2 (map2 f) (a ! i) (b ! i)) = length (tab N (\<lambda>j. tab C (\<lambda>k. f (a ! i ! j ! k) (b ! i ! j ! k))))"
      using is_shape2_length [OF ai] is_shape2_length [OF bi] by simp
  next
    fix j assume "j < length (map2 (map2 f) (a ! i) (b ! i))"
    then have j: "j < N" using is_shape2_length [OF ai] by simp
    have "map2 f (a ! i ! j) (b ! i ! j) = tab C (\<lambda>k. f (a ! i ! j ! k) (b ! i ! j ! k))"
      using is_shape2_nth [OF ai j] is_shape2_nth [OF bi j]
      by (intro nth_equalityI) simp_all
    then show "map2 (map2 f) (a ! i) (b ! i) ! j = tab N (\<lambda>j. tab C (\<lambda>k. f (a ! i ! j ! k) (b ! i ! j ! k))) ! j"
      using j is_shape2_length [OF ai] is_shape2_length [OF bi] by simp
  qed
  then show "map2 (map2 (map2 f)) a b ! i = tab B (\<lambda>i. tab N (\<lambda>j. tab C (\<lambda>k. f (a ! i ! j ! k) (b ! i ! j ! k)))) ! i"
    using i is_shape3_length [OF a] is_shape3_length [OF b] by simp
qed

lemma ReduceMean3_loss:
  assumes a: "is_shape3 B N C a" and b: "is_shape3 B N C b"
  shows "loss_fn3 sce a (Float32 b) = Some (map2 (map2 (map2 sce)) a b)"
    and "ReduceMean3 (map2 (map2 (map2 sce)) a b) = mean_sce3 sce B N C a b"
proof -
  show "loss_fn3 sce a (Float32 b) = Some (map2 (map2 (map2 sce)) a b)"
    using same_shape3_is_shape [OF a b] by (simp add: loss_fn3_def)
  let ?t = "tab B (\<lambda>i. tab N (\<lambda>j. tab C (\<lambda>k. sce (a ! i ! j ! k) (b ! i ! j ! k))))"
  have sh: "is_shape3 B N C ?t" by (rule is_shape3_tab)
  have "ReduceMean3 ?t = mean_sce3 sce B N C a b"
    unfolding ReduceMean3_def mean_list_def mean_sce3_def
    by (simp add: sum_list_flatten3 [OF sh] length_flatten3 [OF sh] mult.assoc)
  then show "ReduceMean3 (map2 (map2 (map2 sce)) a b) = mean_sce3 sce B N C a b"
    by (simp add: map2_shape3 [OF a b])
qed

text \<open>
  Claim C3. Let the network have returned six auxiliary predictions and six label
  tensors, where for \<open>k < 4\<close> the prediction \<open>supervised_features[k]\<close> and the
  \<open>float32\<close> label tensor \<open>multihot_labels[5 - k]\<close> have the same shape
  \<open>(B, N k, C)\<close>. Then \<open>Hloss.construct\<close> returns the sum over \<open>k < 4\<close> of the
  mean sigmoid cross-entropy between \<open>supervised_features[k]\<close> and
  \<open>multihot_labels[5 - k]\<close>, divided by 4; and replacing
  \<open>supervised_features[4]\<close> and \<open>supervised_features[5]\<close> by any tensors does not
  change the result.
\<close>

theorem Hloss_mean_of_four:
  assumes sf: "\<And>k. k < 4 \<Longrightarrow> is_shape3 B (N k) C (supervised_features ! k)"
    and ml: "\<And>k. k < 4 \<Longrightarrow> multihot_labels ! (5 - k) = Float32 (m k)"
    and ms: "\<And>k. k < 4 \<Longrightarrow> is_shape3 B (N k) C (m k)"
    and len: "length supervised_features = 6" "length multihot_labels = 6"
  shows "Hloss sce multihot_labels supervised_features
           = Some ((\<Sum>k<4. mean_sce3 sce B (N k) C (supervised_features ! k) (m k)) / 4)
         \<and> (\<forall>x y. Hloss sce multihot_labels (take 4 supervised_features @ [x, y])
                    = Hloss sce multihot_labels supervised_features)"
proof -
  have main: "Hloss sce multihot_labels sf'
           = Some ((\<Sum>k<4. mean_sce3 sce B (N k) C (supervised_features ! k) (m k)) / 4)"
    if l: "length sf' = 6" and e: "\<And>k. k < 4 \<Longrightarrow> sf' ! k = supervised_features ! k" for sf'
  proof -
    have g: "py_get sf' 0 = Some (supervised_features ! 0)"
      "py_get sf' 1 = Some (supervised_features ! 1)"
      "py_get sf' 2 = Some (supervised_features ! 2)"
      "py_get sf' 3 = Some (supervised_features ! 3)"
      using l e [of 0] e [of 1] e [of 2] e [of 3] by (simp_all add: py_get_def)
    have h: "py_get multihot_labels 5 = Some (Float32 (m 0))"
      "py_get multihot_labels 4 = Some (Float32 (m 1))"
      "py_get multihot_labels 3 = Some (Float32 (m 2))"
      "py_get multihot_labels 2 = Some (Float32 (m 3))"
      using len ml [of 0] ml [of 1] ml [of 2] ml [of 3] by (simp_all add: py_get_def)
    have sum4: "(\<Sum>k<4. f k) = f 0 + f 1 + f 2 + f (3::nat)" for f :: "nat \<Rightarrow> real"
      by (simp add: numeral_eq_Suc)
    show ?thesis
      unfolding Hloss_def g h
      using ReduceMean3_loss [OF sf ms, of 0 sce] ReduceMean3_loss [OF sf ms, of 1 sce]
        ReduceMean3_loss [OF sf ms, of 2 sce] ReduceMean3_loss [OF sf ms, of 3 sce]
      by (simp add: sum4)
  qed
  have 1: "Hloss sce multihot_labels supervised_features
           = Some ((\<Sum>k<4. mean_sce3 sce B (N k) C (supervised_features ! k) (m k)) / 4)"
    by (rule main) (simp_all add: len)
  have 2: "Hloss sce multihot_labels (take 4 supervised_features @ [x, y])
             = Hloss sce multihot_labels supervised_features" for x y
    unfolding 1 by (rule main) (simp_all add: len nth_append)
  from 1 2 show ?thesis by simp
qed


lemma less_4_cases:
  assumes "k < (4::nat)"
  obtains "k = 0" | "k = 1" | "k = 2" | "k = 3"
  using assms by linarith

text \<open>The statement of C3 on lists with one point and two classes.\<close>

theorem Hloss_mean_of_four_witness:
  "Hloss (\<lambda>x z. x * z) ex_multihot_labels ex_supervised_features = Some (5 / 2)
   \<and> (\<forall>x y. Hloss (\<lambda>x z. x * z) ex_multihot_labels (take 4 ex_supervised_features @ [x, y])
              = Hloss (\<lambda>x z. x * z) ex_multihot_labels ex_supervised_features)"
proof -
  let ?m = "\<lambda>k::nat. if k = 0 then [[[0, 0]]] else if k = 1 then [[[1, 1]]]
                      else if k = 2 then [[[0, 1]]] else [[[1, 0::real]]]"
  have sf: "\<And>k. k < 4 \<Longrightarrow> is_shape3 1 1 2 (ex_supervised_features ! k)"
  proof -
    fix k :: nat assume "k < 4"
    then show "is_shape3 1 1 2 (ex_supervised_features ! k)"
      by (cases rule: less_4_cases)
         (simp_all add: ex_supervised_features_def is_shape3_def is_shape2_def)
  qed
  have ml: "\<And>k. k < 4 \<Longrightarrow> ex_multihot_labels ! (5 - k) = Float32 (?m k)"
  proof -
    fix k :: nat assume "k < 4"
    then show "ex_multihot_labels ! (5 - k) = Float32 (?m k)"
      by (cases rule: less_4_cases) (simp_all add: ex_multihot_labels_def)
  qed
  have ms: "\<And>k. k < 4 \<Longrightarrow> is_shape3 1 1 2 (?m k)"
    by (simp add: is_shape3_def is_shape2_def)
  have len: "length ex_supervised_features = 6" "length ex_multihot_labels = 6"
    by (simp_all add: ex_supervised_features_def ex_multihot_labels_def)
  have v: "Hloss (\<lambda>x z. x * z) ex_multihot_labels ex_supervised_features = Some (5 / 2)"
    by code_simp
  from Hloss_mean_of_four [of 1 "\<lambda>k. 1" 2 ex_supervised_features ex_multihot_labels ?m
         "\<lambda>x z. x * z", OF sf ml ms len] v
  show ?thesis by simp
qed

lemma same_shape4_map: "same_shape4 t (map (map (map (map f))) t)"
  by (simp add: same_shape4_def list_all2_map2 list_all2_same)

lemma map2_map_same: "map2 f xs (map g xs) = map (\<lambda>x. f x (g x)) xs"
  by (induction xs) simp_all

lemma loss_fn4_target:
  "loss_fn4 sce t (target_se t)
     = Some (map (map (map (map (\<lambda>x. sce x (if 0 \<le> x then 1 else 0))))) t)"
proof -
  have "map2 (map2 (map2 (map2 sce))) t (target_se t)
          = map (map (map (map (\<lambda>x. sce x (if 0 \<le> x then 1 else 0))))) t"
    unfolding target_se_def by (simp add: map2_map_same)
  then show ?thesis
    using same_shape4_map [of t] by (simp add: loss_fn4_def target_se_def)
qed

lemma ReduceMean4_map:
  "ReduceMean4 (map (map (map (map f))) t) = mean_list (map f (flatten4 t))"
  by (simp add: ReduceMean4_def flatten4_def map_concat)

lemma SEloss_step_eq:
  assumes "i < length se_features_list"
  shows "SEloss_step sce se_features_list i acc
           = Some (Some ((case acc of None \<Rightarrow> 0 | Some v \<Rightarrow> v)
                          + mean_self_sce sce (se_features_list ! i)))"
  using assms
  by (simp add: SEloss_step_def py_get_def loss_fn4_target ReduceMean4_map mean_self_sce_def
      split: option.splits)

text \<open>
  Claim C4. For a list of four self-enhancement tensors, \<open>SEloss.construct\<close>
  returns the sum over the four tensors of the mean, over all entries \<open>x\<close> of the
  tensor, of the sigmoid cross-entropy between \<open>x\<close> and the indicator of
  \<open>x \<ge> 0\<close>, divided by 4. The right-hand side depends on \<open>se_features_list\<close>
  alone.
\<close>

theorem SEloss_mean_of_four:
  assumes "length se_features_list = 4"
  shows "SEloss sce se_features_list
           = Some ((\<Sum>i<4. mean_self_sce sce (se_features_list ! i)) / 4)"
proof -
  have upt: "[0..<4] = [0, 1, 2, 3::nat]" by (simp add: upt_rec)
  have sum4: "(\<Sum>k<4. f k) = f 0 + f 1 + f 2 + f (3::nat)" for f :: "nat \<Rightarrow> real"
    by (simp add: numeral_eq_Suc)
  show ?thesis
    unfolding SEloss_def upt using assms
    by (simp add: SEloss_step_eq sum4)
qed

text \<open>The statement of C4 on four tensors with two entries each.\<close>

theorem SEloss_mean_of_four_witness:
  "length [[[[[1], [2]]]], [[[[1], [- 2]]]], [[[[1], [2]]]], [[[[1], [2::real]]]]] = 4
   \<and> SEloss (\<lambda>x z. x * z) [[[[[1], [2]]]], [[[[1], [- 2]]]], [[[[1], [2]]]], [[[[1], [2]]]]]
       = Some ((\<Sum>i<4. mean_self_sce (\<lambda>x z. x * z)
                 ([[[[[1], [2]]]], [[[[1], [- 2]]]], [[[[1], [2]]]], [[[[1], [2]]]]] ! i)) / 4)
   \<and> SEloss (\<lambda>x z. x * z) [[[[[1], [2]]]], [[[[1], [- 2]]]], [[[[1], [2]]]], [[[[1], [2]]]]]
       = Some (5 / 4)"
proof -
  have l: "length [[[[[1], [2]]]], [[[[1], [- 2]]]], [[[[1], [2]]]], [[[[1], [2::real]]]]] = 4"
    by simp
  have v: "SEloss (\<lambda>x z. x * z)
             [[[[[1], [2]]]], [[[[1], [- 2]]]], [[[[1], [2]]]], [[[[1], [2]]]]] = Some (5 / 4)"
    by code_simp
  from SEloss_mean_of_four [OF l, of "\<lambda>x z. x * z"] l v show ?thesis by simp
qed

section \<open>The weighted cross-entropy and the total loss\<close>


lemma reshape2_flatten3:
  assumes t: "is_shape3 B N C t" and C: "0 < C"
  shows "reshape2_infer_rows C (flatten3 t) = Some (concat t)"
proof -
  have rows: "\<forall>r \<in> set (concat t). length r = C"
    using is_shape3_set [OF t] by (auto simp add: is_shape2_def list_all_iff)
  have len: "length (flatten3 t) = length (concat t) * C"
    unfolding flatten3_def by (rule length_concat_rect [OF rows])
  have "split_rows (length (concat t)) (flatten3 t) = concat t"
    unfolding flatten3_def by (rule split_rows_concat [OF rows])
  then show ?thesis using C by (simp add: reshape2_infer_rows_def len)
qed

lemma map2_concat_rect:
  assumes "list_all2 (\<lambda>u v. length u = length v) xss yss"
  shows "map2 f (concat xss) (concat yss) = concat (map2 (map2 f) xss yss)"
  using assms by (induction rule: list_all2_induct) simp_all

lemma sum_list_onehot:
  assumes "length w = C"
  shows "sum_list (map2 (*) w (onehot_row C l)) = class_weight w l"
proof -
  have "map2 (*) w (onehot_row C l) = map (\<lambda>c. if int c = l then w ! c else 0) [0..<C]"
    using assms by (intro nth_equalityI) (auto simp add: onehot_row_def)
  then have "sum_list (map2 (*) w (onehot_row C l)) = (\<Sum>c<C. if int c = l then w ! c else 0)"
    by (simp add: interv_sum_list_conv_sum_set_nat atLeast0LessThan)
  also have "\<dots> = (\<Sum>c<C. if c = nat l \<and> 0 \<le> l then w ! c else 0)"
    by (intro sum.cong) auto
  also have "\<dots> = class_weight w l"
    using assms by (cases "0 \<le> l") (auto simp add: class_weight_def sum.delta)
  finally show ?thesis .
qed

lemma length_onehot_row: "length (onehot_row C l) = C"
  by (simp add: onehot_row_def)

lemma broadcast_mul_onehot:
  assumes "length w = C"
  shows "broadcast_mul_rows w (OneHot1 C ls)
           = Some (map (\<lambda>l. map2 (*) w (onehot_row C l)) ls)"
  using assms
  by (simp add: broadcast_mul_rows_def OneHot1_def list_all_iff length_onehot_row comp_def)

lemma map2_tab: "map2 f (tab n g) (tab n h) = tab n (\<lambda>i. f (g i) (h i))"
  by (rule nth_equalityI) simp_all

lemma length_concat_tab: "length (concat (tab B (\<lambda>b. tab N (g b)))) = B * N"
proof -
  have "\<forall>r \<in> set (tab B (\<lambda>b. tab N (g b))). length r = N" by (auto simp add: tab_def)
  from length_concat_rect [OF this] show ?thesis by simp
qed

theorem WeightCEloss_weighted_mean:
  assumes lg: "is_shape3 B C N logits" and lb: "is_shape2 B N labels"
    and w: "length weights = C" and pos: "0 < B" "0 < C" "0 < N"
  shows "WeightCEloss smce weights C logits labels
           = Some ((\<Sum>b<B. \<Sum>n<N.
                      smce (logit_row logits C b n) (onehot_row C (labels ! b ! n))
                        * class_weight weights (labels ! b ! n)) / real (B * N))"
proof -
  let ?T = "tab B (\<lambda>b. tab N (\<lambda>n. logit_row logits C b n))"
  let ?contrib = "\<lambda>b n. smce (logit_row logits C b n) (onehot_row C (labels ! b ! n))
                        * class_weight weights (labels ! b ! n)"
  let ?X = "tab B (\<lambda>b. tab N (\<lambda>n. ?contrib b n))"
  have tr: "transpose3_021 logits = ?T"
    by (simp add: transpose3_021_def dims_shape3 [OF lg pos(1,2)] logit_row_def tab_def)
  have Ts: "is_shape3 B N C ?T"
    by (simp add: is_shape3_def is_shape2_def list_all_length logit_row_def)
  have s1: "reshape2_infer_rows C (flatten3 (transpose3_021 logits)) = Some (concat ?T)"
    unfolding tr by (rule reshape2_flatten3 [OF Ts pos(2)])
  have labs: "labels = tab B (\<lambda>b. tab N (\<lambda>n. labels ! b ! n))"
    using is_shape2_length [OF lb] is_shape2_nth [OF lb]
    by (intro nth_equalityI) (simp_all add: tab_def map_nth)
  have oh: "OneHot1 C (concat labels)
              = concat (tab B (\<lambda>b. tab N (\<lambda>n. onehot_row C (labels ! b ! n))))"
    by (subst labs) (simp add: OneHot1_def map_concat tab_def comp_def)
  have s2: "broadcast_mul_rows weights (OneHot1 C (concat labels))
              = Some (map (\<lambda>l. map2 (*) weights (onehot_row C l)) (concat labels))"
    by (rule broadcast_mul_onehot [OF w])
  have w1: "map sum_list (map (\<lambda>l. map2 (*) weights (onehot_row C l)) (concat labels))
              = concat (tab B (\<lambda>b. tab N (\<lambda>n. class_weight weights (labels ! b ! n))))"
    by (subst labs) (simp add: sum_list_onehot [OF w] map_concat tab_def comp_def)
  let ?OH = "tab B (\<lambda>b. tab N (\<lambda>n. onehot_row C (labels ! b ! n)))"
  let ?W = "tab B (\<lambda>b. tab N (\<lambda>n. class_weight weights (labels ! b ! n)))"
  let ?U = "tab B (\<lambda>b. tab N (\<lambda>n.
              smce (logit_row logits C b n) (onehot_row C (labels ! b ! n))))"
  have lenT: "length (concat ?T) = B * N" and lenOH: "length (concat ?OH) = B * N"
    and lenU: "length (concat ?U) = B * N" and lenW: "length (concat ?W) = B * N"
    by (simp_all add: length_concat_tab)
  have rows: "list_all2 (\<lambda>u v. length u = length v) (concat ?T) (concat ?OH)"
    unfolding list_all2_conv_all_nth
  proof (intro conjI allI impI)
    show "length (concat ?T) = length (concat ?OH)" by (simp add: lenT lenOH)
  next
    fix i assume "i < length (concat ?T)"
    then have i: "i < length (concat ?T)" "i < length (concat ?OH)"
      by (simp_all add: lenT lenOH)
    have "concat ?T ! i \<in> set (concat ?T)" by (rule nth_mem [OF i(1)])
    moreover have "concat ?OH ! i \<in> set (concat ?OH)" by (rule nth_mem [OF i(2)])
    ultimately
    show "length (concat ?T ! i) = length (concat ?OH ! i)"
      by (auto simp add: tab_def logit_row_def length_onehot_row)
  qed
  have s3: "smce_rows smce (concat ?T) (concat ?OH) = Some (concat ?U)"
  proof -
    have "map2 smce (concat ?T) (concat ?OH) = concat (map2 (map2 smce) ?T ?OH)"
      by (rule map2_concat_rect) (simp add: list_all2_conv_all_nth)
    also have "map2 (map2 smce) ?T ?OH = ?U" by (simp add: map2_tab)
    finally show ?thesis using rows by (simp add: smce_rows_def)
  qed
  have s4: "map2 (*) (concat ?U) (concat ?W) = concat ?X"
  proof -
    have "map2 (*) (concat ?U) (concat ?W) = concat (map2 (map2 (*)) ?U ?W)"
      by (rule map2_concat_rect) (simp add: list_all2_conv_all_nth)
    also have "map2 (map2 (*)) ?U ?W = ?X" by (simp add: map2_tab)
    finally show ?thesis .
  qed
  have Xs: "is_shape2 B N ?X" by (simp add: is_shape2_def list_all_length)
  have sum: "sum_list (concat ?X) = (\<Sum>b<B. \<Sum>n<N. ?contrib b n)"
    using sum_list_rect [OF Xs] by simp
  have lenX: "length (concat ?X) = B * N" by (simp add: length_concat_tab)
  have s3': "smce_rows smce (concat ?T) (OneHot1 C (concat labels)) = Some (concat ?U)"
    using s3 oh by simp
  have len: "length (concat ?U) = length (concat ?W)" by (simp add: lenU lenW)
  have "WeightCEloss smce weights C logits labels = Some (mean_list (concat ?X))"
    by (simp only: WeightCEloss_def Let_def s1 s2 w1 s3' s4 len bind.bind_lunit if_True
        refl simp_thms)
  then show ?thesis by (simp add: mean_list_def sum lenX)
qed


text \<open>The statement of C2 for two points and two classes.\<close>

theorem WeightCEloss_weighted_mean_witness:
  "is_shape3 1 2 2 [[[1, 2], [3, 4::real]]] \<and> is_shape2 1 2 [[0, 1::int]]
   \<and> length [10, 100::real] = 2
   \<and> WeightCEloss (\<lambda>row target. sum_list (map2 (*) row target)) [10, 100] 2
         [[[1, 2], [3, 4]]] [[0, 1]]
       = Some ((\<Sum>b<1. \<Sum>n<2.
                  (\<lambda>row target. sum_list (map2 (*) row target))
                     (logit_row [[[1, 2], [3, 4]]] 2 b n)
                     (onehot_row 2 ([[0, 1]] ! b ! n))
                   * class_weight [10, 100] ([[0, 1]] ! b ! n)) / real (1 * 2))
   \<and> WeightCEloss (\<lambda>row target. sum_list (map2 (*) row target)) [10, 100] 2
         [[[1, 2], [3, 4]]] [[0, 1]] = Some 205"
proof -
  have h1: "is_shape3 1 2 2 [[[1, 2], [3, 4::real]]]"
    by (simp add: is_shape3_def is_shape2_def)
  have h2: "is_shape2 1 2 [[0, 1::int]]" by (simp add: is_shape2_def)
  have h3: "length [10, 100::real] = 2" by simp
  have v: "WeightCEloss (\<lambda>row target. sum_list (map2 (*) row target)) [10, 100] 2
             [[[1, 2], [3, 4]]] [[0, 1]] = Some 205"
    by code_simp
  from WeightCEloss_weighted_mean [OF h1 h2 h3, of "\<lambda>row target. sum_list (map2 (*) row target)"]
    h1 h2 h3 v
  show ?thesis by simp
qed

text \<open>
  Claim C1. When the network returns
  \<open>(logits, multihot_labels, supervised_features, se_features_list)\<close>, the value
  that \<open>RandLAWithLoss.construct\<close> returns is \<open>CE_loss + h_loss + se_loss\<close>,
  where \<open>CE_loss\<close> is what \<open>WeightCEloss\<close> returns on the logits and the labels,
  \<open>h_loss\<close> what \<open>Hloss\<close> returns on the label list and the auxiliary
  predictions, and \<open>se_loss\<close> what \<open>SEloss\<close> returns on the self-enhancement
  features; it returns exactly when the three losses do.
\<close>

theorem RandLAWithLoss_sum_of_three:
  assumes "network [p0, p1, p2, p3, p4] feature [n0, n1, n2, n3, n4] [pl0, pl1, pl2, pl3, pl4]
             [u0, u1, u2, u3, u4] labels
           = Some (logits, multihot_labels, supervised_features, se_features_list)"
  shows "RandLAWithLoss_construct network weights num_classes sce smce
           feature labels input_inds cloud_inds p0 p1 p2 p3 p4 n0 n1 n2 n3 n4
           pl0 pl1 pl2 pl3 pl4 u0 u1 u2 u3 u4 = Some loss
         \<longleftrightarrow> (\<exists>CE_loss h_loss se_loss.
                WeightCEloss smce weights num_classes logits labels = Some CE_loss
              \<and> Hloss sce multihot_labels supervised_features = Some h_loss
              \<and> SEloss sce se_features_list = Some se_loss
              \<and> loss = CE_loss + h_loss + se_loss)"
  using assms by (auto simp add: RandLAWithLoss_construct_def bind_eq_Some_conv)


text \<open>The statement of C1 on the small network and input.\<close>

theorem RandLAWithLoss_sum_of_three_witness:
  "RandLAWithLoss_construct (construct ex_layers) [1, 2, 3] 3 (\<lambda>x z. x * z)
     (\<lambda>row target. sum_list (map2 (*) row target)) [[[1], [2], [3]]] [[2, 1, 0]] () ()
     (ex_xyz ! 0) (ex_xyz ! 1) (ex_xyz ! 2) (ex_xyz ! 3) (ex_xyz ! 4)
     (ex_neighbor_idx ! 0) (ex_neighbor_idx ! 1) (ex_neighbor_idx ! 2) (ex_neighbor_idx ! 3)
     (ex_neighbor_idx ! 4)
     (ex_sub_idx ! 0) (ex_sub_idx ! 1) (ex_sub_idx ! 2) (ex_sub_idx ! 3) (ex_sub_idx ! 4)
     (ex_interp_idx ! 0) (ex_interp_idx ! 1) (ex_interp_idx ! 2) (ex_interp_idx ! 3)
     (ex_interp_idx ! 4)
   = Some (10 / 3 + 4 / 13 + 2)"
proof -
  have lists: "[ex_xyz ! 0, ex_xyz ! 1, ex_xyz ! 2, ex_xyz ! 3, ex_xyz ! 4] = ex_xyz"
    "[ex_neighbor_idx ! 0, ex_neighbor_idx ! 1, ex_neighbor_idx ! 2, ex_neighbor_idx ! 3,
      ex_neighbor_idx ! 4] = ex_neighbor_idx"
    "[ex_sub_idx ! 0, ex_sub_idx ! 1, ex_sub_idx ! 2, ex_sub_idx ! 3, ex_sub_idx ! 4] = ex_sub_idx"
    "[ex_interp_idx ! 0, ex_interp_idx ! 1, ex_interp_idx ! 2, ex_interp_idx ! 3,
      ex_interp_idx ! 4] = ex_interp_idx"
    by (simp_all add: ex_xyz_def ex_neighbor_idx_def ex_sub_idx_def ex_interp_idx_def)
  have "construct ex_layers [ex_xyz ! 0, ex_xyz ! 1, ex_xyz ! 2, ex_xyz ! 3, ex_xyz ! 4]
          [[[1], [2], [3]]]
          [ex_neighbor_idx ! 0, ex_neighbor_idx ! 1, ex_neighbor_idx ! 2, ex_neighbor_idx ! 3,
           ex_neighbor_idx ! 4]
          [ex_sub_idx ! 0, ex_sub_idx ! 1, ex_sub_idx ! 2, ex_sub_idx ! 3, ex_sub_idx ! 4]
          [ex_interp_idx ! 0, ex_interp_idx ! 1, ex_interp_idx ! 2, ex_interp_idx ! 3,
           ex_interp_idx ! 4] [[2, 1, 0]]
        = construct ex_layers ex_xyz [[[1], [2], [3]]] ex_neighbor_idx ex_sub_idx ex_interp_idx
            [[2, 1, 0]]"
    by (simp only: lists)
  note net = trans [OF this ex_construct]
  have ce: "WeightCEloss (\<lambda>row target. sum_list (map2 (*) row target)) [1, 2, 3] 3
              [[[1, 2, 3], [1, 2, 3], [1, 2, 3]]] [[2, 1, 0]]
            = Some (10 / 3)"
    by code_simp
  have h: "Hloss (\<lambda>x z. x * z)
     [Int32
     [[[0, 0, 1, 0, 0, 0, 0, 0, 0, 0, 0, 0, 0],
       [0, 1, 0, 0, 0, 0, 0, 0, 0, 0, 0, 0, 0],
       [1, 0, 0, 0, 0, 0, 0, 0, 0, 0, 0, 0, 0]]],
    Float32 [[[0, 1, 1, 0, 0, 0, 0, 0, 0, 0, 0, 0, 0]]],
    Float32 [[[0, 1, 1, 0, 0, 0, 0, 0, 0, 0, 0, 0, 0]]],
    Float32 [[[0, 1, 1, 0, 0, 0, 0, 0, 0, 0, 0, 0, 0]]],
    Float32 [[[0, 1, 1, 0, 0, 0, 0, 0, 0, 0, 0, 0, 0]]],
    Float32 [[[0, 1, 1, 0, 0, 0, 0, 0, 0, 0, 0, 0, 0]]]]
   [[[[2, 2, 2, 2, 2, 2, 2, 2, 2, 2, 2, 2, 2]]],
    [[[2, 2, 2, 2, 2, 2, 2, 2, 2, 2, 2, 2, 2]]],
    [[[2, 2, 2, 2, 2, 2, 2, 2, 2, 2, 2, 2, 2]]],
    [[[2, 2, 2, 2, 2, 2, 2, 2, 2, 2, 2, 2, 2]]],
    [[[2, 2, 2, 2, 2, 2, 2, 2, 2, 2, 2, 2, 2]]],
    [[[1, 1, 1, 1, 1, 1, 1, 1, 1, 1, 1, 1, 1],
      [2, 2, 2, 2, 2, 2, 2, 2, 2, 2, 2, 2, 2],
      [3, 3, 3, 3, 3, 3, 3, 3, 3, 3, 3, 3, 3]]]] = Some (4 / 13)"
    by code_simp
  have se: "SEloss (\<lambda>x z. x * z)
     [[[[[2]], [[2]]]], [[[[2]], [[2]]]], [[[[2]], [[2]]]],
    [[[[2]], [[2]]]]] = Some 2"
    by code_simp
  from ce h se show ?thesis
    unfolding RandLAWithLoss_sum_of_three [where network = "construct ex_layers", OF net]
    by blast
qed

section \<open>Attentive pooling and the order of the neighbours\<close>



lemma tab_cong2: "n = m \<Longrightarrow> (\<And>i. i < m \<Longrightarrow> f i = g i) \<Longrightarrow> tab n f = tab m g"
  by (simp add: tab_def)

lemma sum_list_tab: "sum_list (tab n f) = (\<Sum>i<n. f i)"
  for f :: "nat \<Rightarrow> real"
  by (simp add: tab_def interv_sum_list_conv_sum_set_nat atLeast0LessThan)

lemma tensor4_tab:
  assumes "is_shape4 A B C D t"
  shows "t = tab A (\<lambda>a. tab B (\<lambda>b. tab C (\<lambda>c. tab D (\<lambda>d. t ! a ! b ! c ! d))))"
proof -
  have r: "xs = tab (length xs) (\<lambda>i. xs ! i)" for xs :: "'b list"
    by (simp add: tab_def map_nth)
  have "t = tab A (\<lambda>a. t ! a)" using r [of t] is_shape4_length [OF assms] by simp
  also have "\<dots> = tab A (\<lambda>a. tab B (\<lambda>b. t ! a ! b))"
  proof (rule tab_cong)
    fix a assume "a < A"
    from is_shape3_length [OF is_shape4_nth [OF assms this]] r [of "t ! a"]
    show "t ! a = tab B (\<lambda>b. t ! a ! b)" by simp
  qed
  also have "\<dots> = tab A (\<lambda>a. tab B (\<lambda>b. tab C (\<lambda>c. t ! a ! b ! c)))"
  proof (intro tab_cong)
    fix a b assume "a < A" "b < B"
    from is_shape2_length [OF is_shape3_nth [OF is_shape4_nth [OF assms this(1)] this(2)]]
      r [of "t ! a ! b"]
    show "t ! a ! b = tab C (\<lambda>c. t ! a ! b ! c)" by simp
  qed
  also have "\<dots> = tab A (\<lambda>a. tab B (\<lambda>b. tab C (\<lambda>c. tab D (\<lambda>d. t ! a ! b ! c ! d))))"
  proof (intro tab_cong)
    fix a b c assume "a < A" "b < B" "c < C"
    from is_shape2_nth [OF is_shape3_nth [OF is_shape4_nth [OF assms this(1)] this(2)] this(3)]
      r [of "t ! a ! b ! c"]
    show "t ! a ! b ! c = tab D (\<lambda>d. t ! a ! b ! c ! d)" by simp
  qed
  finally show ?thesis .
qed

lemma same_shape4_tab:
  "same_shape4 (tab A (\<lambda>a. tab B (\<lambda>b. tab C (\<lambda>c. tab D (f a b c)))))
     (tab A (\<lambda>a. tab B (\<lambda>b. tab C (\<lambda>c. tab D (g a b c)))))"
  by (simp add: same_shape4_def list_all2_conv_all_nth)

lemma AttentivePooling_eq:
  assumes x: "is_shape4 B d N K x" and W: "is_shape2 d d (score_weight ap)"
    and pos: "0 < B" "0 < d" "0 < N" "0 < K"
  shows "Dense4 (score_weight ap) (transpose4_0231 x)
           = Some (tab B (\<lambda>b. tab N (\<lambda>n. tab K (\<lambda>k. tab d (\<lambda>c.
                dense_out (score_weight ap) x d b n k c)))))"
    and "transpose4_0312 (Softmax4_2 (tab B (\<lambda>b. tab N (\<lambda>n. tab K (\<lambda>k. tab d (\<lambda>c.
                dense_out (score_weight ap) x d b n k c))))))
           = tab B (\<lambda>b. tab d (\<lambda>c. tab N (\<lambda>n. tab K (\<lambda>k.
                att_score (score_weight ap) x d K b c n k))))"
    and "AttentivePooling_construct ap x
           = SharedMLP_construct (ap_mlp ap)
               (tab B (\<lambda>b. tab d (\<lambda>c. tab N (\<lambda>n.
                  [pooled_feature (score_weight ap) x d K b c n]))))"
proof -
  let ?W = "score_weight ap"
  let ?y = "dense_out ?W x d"
  let ?T = "tab B (\<lambda>b. tab N (\<lambda>n. tab K (\<lambda>k. tab d (\<lambda>c. x ! b ! c ! n ! k))))"
  let ?D = "tab B (\<lambda>b. tab N (\<lambda>n. tab K (\<lambda>k. tab d (\<lambda>c. ?y b n k c))))"
  let ?S = "tab B (\<lambda>b. tab N (\<lambda>n. tab K (\<lambda>k. tab d (\<lambda>c. att_score ?W x d K b c n k))))"
  let ?sc = "tab B (\<lambda>b. tab d (\<lambda>c. tab N (\<lambda>n. tab K (\<lambda>k. att_score ?W x d K b c n k))))"
  have tr: "transpose4_0231 x = ?T"
    by (simp add: transpose4_0231_def dims_shape4 [OF x pos(1,2,3)])
  have dW: "dim1 ?W = d" using W pos by (simp add: dim1_shape2)
  have lW: "length ?W = d" using W by (simp add: is_shape2_length)
  have row: "\<And>c. c < d \<Longrightarrow> length (?W ! c) = d" using is_shape2_nth [OF W] .
  have dense_row: "map (\<lambda>row. sum_list (map2 (*) (tab d g) row)) ?W
                     = tab d (\<lambda>c. \<Sum>i<d. g i * ?W ! c ! i)" for g :: "nat \<Rightarrow> real"
  proof (rule nth_equalityI)
    show "length (map (\<lambda>row. sum_list (map2 (*) (tab d g) row)) ?W)
            = length (tab d (\<lambda>c. \<Sum>i<d. g i * ?W ! c ! i))"
      by (simp add: lW)
  next
    fix c assume "c < length (map (\<lambda>row. sum_list (map2 (*) (tab d g) row)) ?W)"
    then have c: "c < d" by (simp add: lW)
    have "map2 (*) (tab d g) (?W ! c) = tab d (\<lambda>i. g i * ?W ! c ! i)"
      using row [OF c] by (intro nth_equalityI) simp_all
    then show "map (\<lambda>row. sum_list (map2 (*) (tab d g) row)) ?W ! c
                 = tab d (\<lambda>c. \<Sum>i<d. g i * ?W ! c ! i) ! c"
      using c lW by (simp add: sum_list_tab)
  qed
  have s1: "Dense4 ?W ?T = Some ?D"
  proof -
    have "list_all (list_all (list_all (\<lambda>v. length v = dim1 ?W))) ?T"
      by (simp add: list_all_length dW)
    moreover have "map (map (map (\<lambda>v. map (\<lambda>row. sum_list (map2 (*) v row)) ?W))) ?T = ?D"
      by (simp add: map_tab dense_row dense_out_def)
    ultimately show ?thesis by (simp add: Dense4_def)
  qed
  have s2: "Softmax4_2 ?D = ?S"
    by (simp add: Softmax4_2_def map_tab sum_list_tab att_score_def cong: tab_cong2)
  have Ss: "is_shape4 B N K d ?S" by (rule is_shape4_tab)
  have s3: "transpose4_0312 ?S = ?sc"
    by (simp add: transpose4_0312_def dims_shape4 [OF Ss pos(1,3,4)] cong: tab_cong2)
  have s4: "mul4 ?sc x
              = Some (tab B (\<lambda>b. tab d (\<lambda>c. tab N (\<lambda>n. tab K (\<lambda>k.
                        att_score ?W x d K b c n k * x ! b ! c ! n ! k)))))"
  proof -
    have "mul4 ?sc (tab B (\<lambda>b. tab d (\<lambda>c. tab N (\<lambda>n. tab K (\<lambda>k. x ! b ! c ! n ! k)))))
              = Some (tab B (\<lambda>b. tab d (\<lambda>c. tab N (\<lambda>n. tab K (\<lambda>k.
                        att_score ?W x d K b c n k * x ! b ! c ! n ! k)))))"
      by (simp add: mul4_def same_shape4_tab map2_tab)
    then show ?thesis using tensor4_tab [OF x] by simp
  qed
  have s5: "ReduceSum4_last_keep (tab B (\<lambda>b. tab d (\<lambda>c. tab N (\<lambda>n. tab K (\<lambda>k.
                        att_score ?W x d K b c n k * x ! b ! c ! n ! k)))))
              = tab B (\<lambda>b. tab d (\<lambda>c. tab N (\<lambda>n. [pooled_feature ?W x d K b c n])))"
    by (simp add: ReduceSum4_last_keep_def map_tab sum_list_tab pooled_feature_def)
  show "Dense4 ?W (transpose4_0231 x) = Some ?D" unfolding tr by (rule s1)
  show "transpose4_0312 (Softmax4_2 ?D) = ?sc" unfolding s2 by (rule s3)
  show "AttentivePooling_construct ap x
           = SharedMLP_construct (ap_mlp ap)
               (tab B (\<lambda>b. tab d (\<lambda>c. tab N (\<lambda>n. [pooled_feature ?W x d K b c n]))))"
    by (simp only: AttentivePooling_construct_def tr s1 s2 s3 s4 s5 Let_def bind.bind_lunit)
qed










lemma permute_row_nth: "k < K \<Longrightarrow> permute_row \<pi> K r ! k = r ! \<pi> k"
  by (simp add: permute_row_def)

lemma length_permute_row: "length (permute_row \<pi> K r) = K"
  by (simp add: permute_row_def)

lemma set_permute_row:
  assumes "bij_betw \<pi> {..<K} {..<K}" "length r = K"
  shows "set (permute_row \<pi> K r) = set r"
proof -
  have "set (permute_row \<pi> K r) = (\<lambda>k. r ! k) ` (\<pi> ` {..<K})"
    by (simp add: permute_row_def image_image atLeast0LessThan)
  also have "\<pi> ` {..<K} = {..<K}" using assms(1) by (simp add: bij_betw_def)
  also have "(\<lambda>k. r ! k) ` {..<K} = set r"
    using assms(2) by (simp add: set_conv_nth image_def lessThan_def) blast
  finally show ?thesis .
qed

lemma is_shape4_permute:
  assumes "is_shape4 B d N K x"
  shows "is_shape4 B d N K (map (map (map (permute_row \<pi> K))) x)"
  using assms
  by (auto simp add: is_shape4_def is_shape3_def is_shape2_def list_all_iff length_permute_row)

lemma nth_permute4:
  assumes x: "is_shape4 B d N K x" and i: "b < B" "c < d" "n < N" "k < K"
  shows "map (map (map (permute_row \<pi> K))) x ! b ! c ! n ! k = x ! b ! c ! n ! \<pi> k"
proof -
  have 1: "b < length x" using x i by (simp add: is_shape4_length)
  have s3: "is_shape3 d N K (x ! b)" by (rule is_shape4_nth [OF x i(1)])
  have 2: "c < length (x ! b)" using s3 i by (simp add: is_shape3_length)
  have s2: "is_shape2 N K (x ! b ! c)" by (rule is_shape3_nth [OF s3 i(2)])
  have 3: "n < length (x ! b ! c)" using s2 i by (simp add: is_shape2_length)
  show ?thesis using 1 2 3 i(4) by (simp add: permute_row_nth)
qed

lemma pooled_feature_permute:
  assumes x: "is_shape4 B d N K x" and pi: "bij_betw \<pi> {..<K} {..<K}"
    and i: "b < B" "c < d" "n < N"
  shows "pooled_feature W (map (map (map (permute_row \<pi> K))) x) d K b c n
           = pooled_feature W x d K b c n"
proof -
  let ?x' = "map (map (map (permute_row \<pi> K))) x"
  have y: "dense_out W ?x' d b n k c = dense_out W x d b n (\<pi> k) c" if "k < K" for k
    unfolding dense_out_def
    by (intro sum.cong refl) (simp add: nth_permute4 [OF x i(1) _ i(3) that])
  have den: "(\<Sum>j<K. exp (dense_out W ?x' d b n j c)) = (\<Sum>j<K. exp (dense_out W x d b n j c))"
  proof -
    have "(\<Sum>j<K. exp (dense_out W ?x' d b n j c))
            = (\<Sum>j<K. exp (dense_out W x d b n (\<pi> j) c))"
      by (intro sum.cong refl) (simp add: y)
    also have "\<dots> = (\<Sum>j<K. exp (dense_out W x d b n j c))"
      by (rule sum.reindex_bij_betw [OF pi])
    finally show ?thesis .
  qed
  have sc: "att_score W ?x' d K b c n k = att_score W x d K b c n (\<pi> k)" if "k < K" for k
    unfolding att_score_def den by (simp add: y [OF that])
  have "pooled_feature W ?x' d K b c n
          = (\<Sum>k<K. att_score W x d K b c n (\<pi> k) * x ! b ! c ! n ! \<pi> k)"
    unfolding pooled_feature_def
    by (intro sum.cong refl) (simp add: sc nth_permute4 [OF x i])
  also have "\<dots> = (\<Sum>k<K. att_score W x d K b c n k * x ! b ! c ! n ! k)"
    by (rule sum.reindex_bij_betw [OF pi])
  finally show ?thesis by (simp add: pooled_feature_def)
qed

lemma AttentivePooling_permute:
  assumes x: "is_shape4 B d N K x" and W: "is_shape2 d d (score_weight ap)"
    and pos: "0 < B" "0 < d" "0 < N" "0 < K"
    and pi: "bij_betw \<pi> {..<K} {..<K}"
  shows "AttentivePooling_construct ap (map (map (map (permute_row \<pi> K))) x)
           = AttentivePooling_construct ap x"
proof -
  let ?x' = "map (map (map (permute_row \<pi> K))) x"
  have x': "is_shape4 B d N K ?x'" by (rule is_shape4_permute [OF x])
  have "tab B (\<lambda>b. tab d (\<lambda>c. tab N (\<lambda>n. [pooled_feature (score_weight ap) ?x' d K b c n])))
          = tab B (\<lambda>b. tab d (\<lambda>c. tab N (\<lambda>n. [pooled_feature (score_weight ap) x d K b c n])))"
    by (intro tab_cong) (simp add: pooled_feature_permute [OF x pi])
  then show ?thesis
    unfolding AttentivePooling_eq(3) [OF x' W pos] AttentivePooling_eq(3) [OF x W pos]
    by simp
qed

lemma pooled_permute:
  fixes feature :: "'a::linorder tensor4"
  assumes "bij_betw \<rho> {..<K} {..<K}" "length row = K" "0 < K"
  shows "pooled feature b c (permute_row \<rho> K row) = pooled feature b c row"
proof -
  let ?h = "\<lambda>i. feature ! b ! c ! wrap_index (dim2 feature) i ! 0"
  have ne: "map ?h row \<noteq> []" "map ?h (permute_row \<rho> K row) \<noteq> []"
    using assms by (auto simp add: permute_row_def)
  have "set (map ?h (permute_row \<rho> K row)) = set (map ?h row)"
    using set_permute_row [OF assms(1,2)] by simp
  then show ?thesis
    unfolding pooled_def max_list_Max [OF ne(1)] max_list_Max [OF ne(2)] by simp
qed

lemma random_sample_permute:
  fixes feature :: "'a::linorder tensor4"
  assumes f: "is_shape4 B d N (Suc 0) feature"
    and p: "is_shape3 B N' K pool_idx"
    and pos: "0 < B" "0 < d" "0 < N'" "0 < K"
    and rho: "bij_betw \<rho> {..<K} {..<K}"
  shows "random_sample feature (map (map (permute_row \<rho> K)) pool_idx)
           = random_sample feature pool_idx"
proof -
  let ?p' = "map (map (permute_row \<rho> K)) pool_idx"
  have p': "is_shape3 B N' K ?p'"
    using p by (auto simp add: is_shape3_def is_shape2_def list_all_iff length_permute_row)
  have rows: "\<And>a r. a \<in> set pool_idx \<Longrightarrow> r \<in> set a \<Longrightarrow> length r = K"
    using is_shape2_set [OF is_shape3_set [OF p]] by blast
  have oks: "list_all (list_all (list_all (index_ok N))) ?p'
               \<longleftrightarrow> list_all (list_all (list_all (index_ok N))) pool_idx"
    using rows by (simp add: list_all_iff set_permute_row [OF rho])
  show ?thesis
  proof (cases "list_all (list_all (list_all (index_ok N))) pool_idx")
    case True
    then have ok': "list_all (list_all (list_all (index_ok N))) ?p'" using oks by simp
    have "tab B (\<lambda>b. tab d (\<lambda>c. map (\<lambda>row. [pooled feature b c row]) (?p' ! b)))
            = tab B (\<lambda>b. tab d (\<lambda>c. map (\<lambda>row. [pooled feature b c row]) (pool_idx ! b)))"
    proof (intro tab_cong)
      fix b c assume b: "b < B" and "c < d"
      have mem: "pool_idx ! b \<in> set pool_idx" using b is_shape3_length [OF p] by simp
      have "map (\<lambda>row. [pooled feature b c row]) (map (permute_row \<rho> K) (pool_idx ! b))
              = map (\<lambda>row. [pooled feature b c row]) (pool_idx ! b)"
        using rows [OF mem] by (simp add: pooled_permute [OF rho _ pos(4)])
      then show "map (\<lambda>row. [pooled feature b c row]) (?p' ! b)
                   = map (\<lambda>row. [pooled feature b c row]) (pool_idx ! b)"
        using b is_shape3_length [OF p] by simp
    qed
    then show ?thesis
      unfolding random_sample_eq [OF f p pos True] random_sample_eq [OF f p' pos ok'] by simp
  next
    case False
    then have "random_sample feature pool_idx = None"
      using random_sample_index_ok [OF f p pos] by (cases "random_sample feature pool_idx") auto
    moreover have "random_sample feature ?p' = None"
      using False oks random_sample_index_ok [OF f p' pos]
      by (cases "random_sample feature ?p'") auto
    ultimately show ?thesis by simp
  qed
qed






text \<open>
  With exact arithmetic the pooling over an arithmetic is \<open>AttentivePooling_construct\<close>.
\<close>

lemma foldl_add_sum_list: "foldl (+) a xs = a + sum_list xs" for a :: real
  by (induction xs arbitrary: a) simp_all

lemma ar_sum_exact: "ar_sum exact_arith xs = sum_list xs"
  by (simp add: ar_sum_def exact_arith_def foldl_add_sum_list)

lemma AttentivePooling_construct_exact:
  "AttentivePooling_construct_ar exact_arith ap x = AttentivePooling_construct ap x"
proof -
  have ops: "ar_mul exact_arith = (*)" "ar_div exact_arith = (/)" "ar_exp exact_arith = exp"
    by (simp_all add: exact_arith_def)
  have d: "Dense4_ar exact_arith W t = Dense4 W t" for W t
    by (simp add: Dense4_ar_def Dense4_def ar_sum_exact ops)
  have s: "Softmax4_2_ar exact_arith t = Softmax4_2 t" for t
    by (simp add: Softmax4_2_ar_def Softmax4_2_def ar_sum_exact ops)
  have m: "mul4_ar exact_arith a b = mul4 a b" for a b
    by (simp add: mul4_ar_def mul4_def ops)
  have r: "ReduceSum4_last_keep_ar exact_arith t = ReduceSum4_last_keep t" for t
    by (simp add: ReduceSum4_last_keep_ar_def ReduceSum4_last_keep_def ar_sum_exact)
  show ?thesis
    by (simp add: AttentivePooling_construct_ar_def AttentivePooling_construct_def d s m r)
qed

text \<open>
  The \<open>float32\<close> pooling of three neighbours \<open>a\<close>, \<open>b\<close>, \<open>c\<close> of one point with
  \<open>ex_zero_pooling\<close>: the dense layer returns 0 for every neighbour, the softmax gives
  each the score \<open>round32 (1 / 3)\<close>, and the result is the rounded sum, from the first
  neighbour to the last, of the rounded products.
\<close>

lemma round32_vals:
  "round32 1 = 1" "round32 2 = 2" "round32 3 = 3" "round32 (1 / 3) = 11184811 / 33554432"
  by code_simp+

lemma float32_dense:
  "Dense4_ar float32_arith [[0]] (transpose4_0231 [[[[a, b, c]]]]) = Some [[[[0], [0], [0]]]]"
  by (simp add: Dense4_ar_def float32_arith_def ar_sum_def transpose4_0231_def tab_def
      dim0_def dim1_def dim2_def dim3_def round32_def)

lemma float32_softmax:
  "Softmax4_2_ar float32_arith [[[[0], [0], [0]]]]
     = [[[[11184811 / 33554432], [11184811 / 33554432], [11184811 / 33554432]]]]"
  by (simp add: Softmax4_2_ar_def float32_arith_def ar_sum_def tab_def round32_vals)

lemma float32_weighted_sum:
  "do { features \<leftarrow> mul4_ar float32_arith (transpose4_0312
          [[[[11184811 / 33554432], [11184811 / 33554432], [11184811 / 33554432]]]])
          [[[[a, b, c]]]];
        let features = ReduceSum4_last_keep_ar float32_arith features;
        SharedMLP_construct (ap_mlp ex_zero_pooling) features }
   = Some [[[[foldl (\<lambda>x y. round32 (x + y)) 0
        (map2 (\<lambda>x y. round32 (x * y))
           [11184811 / 33554432, 11184811 / 33554432, 11184811 / 33554432] [a, b, c])]]]]"
  by (simp add: mul4_ar_def ReduceSum4_last_keep_ar_def float32_arith_def ar_sum_def
      transpose4_0312_def tab_def dim0_def dim1_def dim2_def dim3_def same_shape4_def
      SharedMLP_construct_def ex_zero_pooling_def)

lemma float32_pooling:
  "AttentivePooling_construct_ar float32_arith ex_zero_pooling [[[[a, b, c]]]]
     = Some [[[[foldl (\<lambda>x y. round32 (x + y)) 0
          (map2 (\<lambda>x y. round32 (x * y))
             [11184811 / 33554432, 11184811 / 33554432, 11184811 / 33554432] [a, b, c])]]]]"
proof -
  have w: "score_weight ex_zero_pooling = [[0]]"
    by (simp add: ex_zero_pooling_def)
  show ?thesis
    unfolding AttentivePooling_construct_ar_def w float32_dense bind.bind_lunit Let_def
      float32_softmax
    using float32_weighted_sum [of a b c] unfolding Let_def .
qed

lemma float32_sums:
  "foldl (\<lambda>x y. round32 (x + y)) 0
     (map2 (\<lambda>x y. round32 (x * y))
        [11184811 / 33554432, 11184811 / 33554432, 11184811 / 33554432] [1, 1, 7])
     = 12582913 / 4194304"
  "foldl (\<lambda>x y. round32 (x + y)) 0
     (map2 (\<lambda>x y. round32 (x * y))
        [11184811 / 33554432, 11184811 / 33554432, 11184811 / 33554432] [1, 7, 1])
     = 3"
  by code_simp+

lemma swap_last_row: "permute_row swap_last 3 [a, b, c] = [a, c, b]"
  by (simp add: permute_row_def swap_last_def upt_rec)

lemma swap_last_bij: "bij_betw swap_last {..<3} {..<3}"
proof -
  have "{..<3::nat} = {0, 1, 2}" by auto
  then show ?thesis by (auto simp add: bij_betw_def inj_on_def swap_last_def)
qed

text \<open>
  Claim C7 as it is stated does not hold of the \<open>float32\<close> computation. One point has
  the three neighbours 1, 1, 7 in its one channel, each with the score
  \<open>round32 (1 / 3)\<close>. In this order the pooled feature is
  \<open>12582913 / 4194304 = 3 + 2 ^ -22\<close>; with the last two neighbours exchanged, a
  permutation of the neighbour axis, it is 3.
\<close>

theorem neighbour_order_float32_counterexample:
  "AttentivePooling_construct_ar float32_arith ex_zero_pooling
       (map (map (map (permute_row swap_last 3))) [[[[1, 1, 7]]]])
     \<noteq> AttentivePooling_construct_ar float32_arith ex_zero_pooling [[[[1, 1, 7]]]]"
  unfolding list.map swap_last_row float32_pooling float32_sums by simp

text \<open>
  Claim C7, amended. In exact arithmetic, reordering the neighbour axis of the input of
  \<open>AttentivePooling.construct\<close> by a permutation \<open>\<pi>\<close> of \<open>{0, ..., K - 1}\<close> does not
  change its result: a sum of reals does not depend on the order of its terms. In
  \<open>float32\<close> the results can differ by the rounding of the sums. Reordering the last
  axis of \<open>pool_idx\<close> by a permutation does not change the result of \<open>random_sample\<close>,
  which takes a maximum and does not round.
\<close>

theorem neighbour_order_invariance:
  fixes feature :: "'a::linorder tensor4"
  assumes x: "is_shape4 B d N K x" and W: "is_shape2 d d (score_weight ap)"
    and pos: "0 < B" "0 < d" "0 < N" "0 < K"
    and pi: "bij_betw \<pi> {..<K} {..<K}"
    and f: "is_shape4 B' d' M 1 feature" and p: "is_shape3 B' N' K' pool_idx"
    and pos': "0 < B'" "0 < d'" "0 < N'" "0 < K'"
    and rho: "bij_betw \<rho> {..<K'} {..<K'}"
  shows "AttentivePooling_construct_ar exact_arith ap (map (map (map (permute_row \<pi> K))) x)
           = AttentivePooling_construct_ar exact_arith ap x
         \<and> random_sample feature (map (map (permute_row \<rho> K')) pool_idx)
             = random_sample feature pool_idx"
proof -
  have f': "is_shape4 B' d' M (Suc 0) feature" using f by simp
  show ?thesis
    unfolding AttentivePooling_construct_exact
    using AttentivePooling_permute [OF x W pos pi] random_sample_permute [OF f' p pos' rho]
    by simp
qed

text \<open>
  The amended statement of C7 for the same input as above, exact this time, and for the
  exchange of two indices of \<open>pool_idx\<close>.
\<close>

theorem neighbour_order_invariance_witness:
  "AttentivePooling_construct_ar exact_arith ex_zero_pooling [[[[1, 7, 1]]]]
     = AttentivePooling_construct_ar exact_arith ex_zero_pooling [[[[1, 1, 7]]]]
   \<and> random_sample [[[[1::int], [5], [3]], [[7], [2], [9]]]] [[[0, 2, 1], [2, 2, 0]]]
       = random_sample [[[[1::int], [5], [3]], [[7], [2], [9]]]] [[[0, 1, 2], [2, 0, 2]]]"
proof -
  have h1: "is_shape4 1 1 1 3 [[[[1, 1, 7::real]]]]"
    by (simp add: is_shape4_def is_shape3_def is_shape2_def)
  have h2: "is_shape2 1 1 (score_weight ex_zero_pooling)"
    by (simp add: is_shape2_def ex_zero_pooling_def)
  have h3: "is_shape4 1 2 3 1 [[[[1::int], [5], [3]], [[7], [2], [9]]]]"
    by (simp add: is_shape4_def is_shape3_def is_shape2_def)
  have h4: "is_shape3 1 2 3 [[[0, 1, 2], [2, 0, 2::int]]]"
    by (simp add: is_shape3_def is_shape2_def)
  from neighbour_order_invariance
    [OF h1 h2 _ _ _ _ swap_last_bij h3 h4 _ _ _ _ swap_last_bij]
  show ?thesis unfolding list.map swap_last_row by simp
qed

section \<open>The encoder and the decoder of \<open>RandLANet.construct\<close>\<close>























end
